theory Spec2Isabelle
  imports Main
begin

section \<open>Decoded JSON and the Python operations the script applies to it\<close>

text \<open>
  Every value the script reads from the two services is the result of \<^verbatim>\<open>resp.json()\<close>:
  a Python object built from \<^verbatim>\<open>None\<close>, booleans, numbers, strings, lists and
  dictionaries. Numbers are kept as integers (no claim reads a float), and a dictionary
  is an association list whose first binding of a key is the one \<^verbatim>\<open>.get\<close> sees
  (a decoded dictionary has each key once).
\<close>

datatype json =
    JNull
  | JBool bool
  | JNum int
  | JStr string
  | JArr "json list"
  | JObj "(string \<times> json) list"

text \<open>The exceptions that the script's own expressions can raise on decoded JSON.\<close>

datatype py_error = AttributeError | TypeError | KeyError | JSONDecodeError

definition bind_err :: "py_error + 'a \<Rightarrow> ('a \<Rightarrow> py_error + 'b) \<Rightarrow> py_error + 'b" where
  "bind_err m f = (case m of Inl e \<Rightarrow> Inl e | Inr x \<Rightarrow> f x)"

text \<open>Evaluating a list of expressions in order: the first exception ends it.\<close>

fun those_err :: "(py_error + 'a) list \<Rightarrow> py_error + 'a list" where
  "those_err [] = Inr []"
| "those_err (x # xs) = bind_err x (\<lambda>v. bind_err (those_err xs) (\<lambda>vs. Inr (v # vs)))"

text \<open>\<^verbatim>\<open>d.get(k, default)\<close>: only a dictionary has the method.\<close>

fun py_get :: "json \<Rightarrow> string \<Rightarrow> json \<Rightarrow> py_error + json" where
  "py_get (JObj kvs) k dflt = Inr (case map_of kvs k of None \<Rightarrow> dflt | Some v \<Rightarrow> v)"
| "py_get _ k dflt = Inl AttributeError"

text \<open>
  \<^verbatim>\<open>for x in v\<close>: a list yields its elements, a dictionary its keys, a string its
  characters (one-character strings); anything else is not iterable.
\<close>

fun py_iter :: "json \<Rightarrow> py_error + json list" where
  "py_iter (JArr xs) = Inr xs"
| "py_iter (JObj kvs) = Inr (map (\<lambda>kv. JStr (fst kv)) kvs)"
| "py_iter (JStr s) = Inr (map (\<lambda>c. JStr [c]) s)"
| "py_iter _ = Inl TypeError"

text \<open>Python truthiness, as used by \<^verbatim>\<open>if v\<close>, \<^verbatim>\<open>not v\<close>, \<^verbatim>\<open>a and b\<close>.\<close>

fun truthy :: "json \<Rightarrow> bool" where
  "truthy JNull = False"
| "truthy (JBool b) = b"
| "truthy (JNum n) = (n \<noteq> 0)"
| "truthy (JStr s) = (s \<noteq> [])"
| "truthy (JArr xs) = (xs \<noteq> [])"
| "truthy (JObj kvs) = (kvs \<noteq> [])"

text \<open>\<^verbatim>\<open>v or ""\<close>.\<close>

definition py_or_empty :: "json \<Rightarrow> json" where
  "py_or_empty v = (if truthy v then v else JStr [])"

text \<open>
  \<^verbatim>\<open>v["key"]\<close> with a string key: a dictionary without the key raises KeyError, and
  a list, a string, a number, a boolean or \<^verbatim>\<open>None\<close> raises TypeError.
\<close>

fun py_index :: "json \<Rightarrow> string \<Rightarrow> py_error + json" where
  "py_index (JObj kvs) k = (case map_of kvs k of None \<Rightarrow> Inl KeyError | Some v \<Rightarrow> Inr v)"
| "py_index _ k = Inl TypeError"

subsection \<open>Strings\<close>

text \<open>
  A string is the list of the bytes of its UTF-8 encoding. \<^verbatim>\<open>str.strip()\<close> and
  \<^verbatim>\<open>str.lower()\<close> are methods of the Python runtime, defined by tables of the Unicode
  database that are no part of the script: which characters are whitespace, and the
  lower-case form of every letter. They are parameters of the model: every function
  whose source calls one of them takes the pair of them as its first argument, and the
  properties below hold for every such pair.
\<close>

record str_methods =
  str_strip :: "string \<Rightarrow> string"
  str_lower :: "string \<Rightarrow> string"

text \<open>\<^verbatim>\<open>sub in s\<close> for two strings: \<open>sub\<close> occurs in \<open>s\<close> as a contiguous run.\<close>

fun py_in_str :: "string \<Rightarrow> string \<Rightarrow> bool" where
  "py_in_str sub [] = (sub = [])"
| "py_in_str sub (c # cs) = (take (length sub) (c # cs) = sub \<or> py_in_str sub cs)"

text \<open>\<^verbatim>\<open>v.strip()\<close> and \<^verbatim>\<open>v.lower()\<close> on a decoded value: only a string has the methods.\<close>

fun py_strip_of :: "str_methods \<Rightarrow> json \<Rightarrow> py_error + string" where
  "py_strip_of py (JStr s) = Inr (str_strip py s)"
| "py_strip_of py _ = Inl AttributeError"

fun py_lower_of :: "str_methods \<Rightarrow> json \<Rightarrow> py_error + string" where
  "py_lower_of py (JStr s) = Inr (str_lower py s)"
| "py_lower_of py _ = Inl AttributeError"

section \<open>The transport and the Resilient Request Executor\<close>

text \<open>
  A response carries its status code and, when the body parses, the value of
  \<^verbatim>\<open>resp.json()\<close> (\<open>None\<close>: \<^verbatim>\<open>resp.json()\<close> raises). The truth value of a
  \<^verbatim>\<open>requests.Response\<close> is its \<^verbatim>\<open>ok\<close> property: false for a status from 400 to 599.
\<close>

record response =
  status_code :: int
  json_body :: "json option"

definition response_ok :: "response \<Rightarrow> bool" where
  "response_ok r = (\<not> (400 \<le> status_code r \<and> status_code r < 600))"

definition resp_json :: "response \<Rightarrow> py_error + json" where
  "resp_json r = (case json_body r of None \<Rightarrow> Inl JSONDecodeError | Some d \<Rightarrow> Inr d)"

text \<open>
  The guard \<^verbatim>\<open>if not resp or resp.status_code != 200\<close> of every caller:
  \<open>checked_200\<close> yields the response exactly when the guard lets it through.
\<close>

definition checked_200 :: "response option \<Rightarrow> response option" where
  "checked_200 resp =
     (case resp of
        None \<Rightarrow> None
      | Some r \<Rightarrow> if \<not> response_ok r \<or> status_code r \<noteq> 200 then None else Some r)"

text \<open>
  The URLs the script builds are kept structured, one constructor for each f-string
  with the values it interpolates; \<open>LinkUrl\<close> is a value taken from a response
  (\<^verbatim>\<open>links.next\<close>, \<^verbatim>\<open>pageDetails.nextPageUrl\<close>) and used as the next URL.
\<close>

datatype url =
    OrgContactsUrl json
  | OrgsPageUrl int
  | OrgDetailUrl json
  | CompanyContactsUrl json
  | LinkUrl json

fun url_truthy :: "url \<Rightarrow> bool" where
  "url_truthy (LinkUrl v) = truthy v"
| "url_truthy _ = True"

text \<open>
  The outside world. One call of \<^verbatim>\<open>requests.request\<close> either raises or returns a
  response. What it does may depend on everything that happened before, so the
  transport is a function of the history of the run: the requests sent and the sleeps
  made so far. The history is the state that every function below threads through.
  Headers are constant per service and are left out; console output is not recorded.
\<close>

datatype outcome = Raised | Got response

datatype event = Requested string url "json option" | Slept nat

type_synonym transport = "event list \<Rightarrow> string \<Rightarrow> url \<Rightarrow> json option \<Rightarrow> outcome"

text \<open>
  \<^verbatim>\<open>safe_request\<close>: \<open>for attempt in range(max_retries)\<close>. The first argument of the loop
  counts the iterations left, the second is \<^verbatim>\<open>attempt\<close>. A response below 400 is
  returned at once; after any other response or an exception the loop sleeps
  \<open>2 ^ attempt\<close> seconds and goes on; after the last iteration the result is \<^verbatim>\<open>None\<close>.
\<close>

fun safe_request_loop ::
  "transport \<Rightarrow> string \<Rightarrow> url \<Rightarrow> json option \<Rightarrow> nat \<Rightarrow> nat \<Rightarrow> event list
     \<Rightarrow> response option \<times> event list" where
  "safe_request_loop tr method u body 0 attempt trace = (None, trace)"
| "safe_request_loop tr method u body (Suc n) attempt trace =
     (let sent = trace @ [Requested method u body];
          wait = 2 ^ attempt
      in case tr trace method u body of
           Got resp \<Rightarrow>
             if status_code resp < 400 then (Some resp, sent)
             else safe_request_loop tr method u body n (Suc attempt) (sent @ [Slept wait])
         | Raised \<Rightarrow>
             safe_request_loop tr method u body n (Suc attempt) (sent @ [Slept wait]))"

definition safe_request ::
  "transport \<Rightarrow> string \<Rightarrow> url \<Rightarrow> json option \<Rightarrow> int \<Rightarrow> event list
     \<Rightarrow> response option \<times> event list" where
  "safe_request tr method u body max_retries trace =
     safe_request_loop tr method u body (nat max_retries) 0 trace"

section \<open>Contact classification\<close>

text \<open>
  \<^verbatim>\<open>contact_syncs_with\<close>: the loop over \<^verbatim>\<open>contact_data.get("included", [])\<close>,
  returning at the first item whose adapter name is the target and whose sync flag is
  truthy. The comparison \<^verbatim>\<open>== target_adapter\<close> is with a string, so only a JSON string
  can be equal to it.
\<close>

fun contact_syncs_with_loop :: "json list \<Rightarrow> string \<Rightarrow> py_error + bool" where
  "contact_syncs_with_loop [] target_adapter = Inr False"
| "contact_syncs_with_loop (item # rest) target_adapter =
     bind_err (py_get item ''attributes'' (JObj [])) (\<lambda>attributes.
     bind_err (py_get attributes ''adapter-type-name'' JNull) (\<lambda>adapter.
       if adapter = JStr target_adapter then
         bind_err (py_get attributes ''sync'' JNull) (\<lambda>sync.
           if truthy sync then Inr True
           else contact_syncs_with_loop rest target_adapter)
       else contact_syncs_with_loop rest target_adapter))"

definition contact_syncs_with :: "json \<Rightarrow> string \<Rightarrow> py_error + bool" where
  "contact_syncs_with contact_data target_adapter =
     bind_err (py_get contact_data ''included'' (JArr [])) (\<lambda>included.
     bind_err (py_iter included) (\<lambda>items.
       contact_syncs_with_loop items target_adapter))"

section \<open>The Directory Pagination Walker\<close>

text \<open>
  One page of \<^verbatim>\<open>get_all_contact_ids\<close>: \<^verbatim>\<open>data = resp.json()\<close>, the ids of
  \<^verbatim>\<open>data.get("data", [])\<close> in response order, then \<^verbatim>\<open>data.get("links", {}).get("next")\<close>.
\<close>

definition contact_ids_page :: "response \<Rightarrow> py_error + json list \<times> json" where
  "contact_ids_page resp =
     bind_err (resp_json resp) (\<lambda>data.
     bind_err (py_get data ''data'' (JArr [])) (\<lambda>listed.
     bind_err (py_iter listed) (\<lambda>items.
     bind_err (those_err (map (\<lambda>item. py_index item ''id'') items)) (\<lambda>ids.
     bind_err (py_get data ''links'' (JObj [])) (\<lambda>links.
     bind_err (py_get links ''next'' JNull) (\<lambda>next_url.
       Inr (ids, next_url)))))))"

text \<open>
  \<^verbatim>\<open>while url:\<close> may run forever (a server whose pages always link on), so the loop is
  a partial function: \<open>None\<close> is the run that never returns, \<open>Some (Inl e)\<close> the run that
  raises \<open>e\<close>, \<open>Some (Inr (ids, trace))\<close> the run that returns \<open>ids\<close>.
\<close>

partial_function (option) get_all_contact_ids_loop ::
  "transport \<Rightarrow> url \<Rightarrow> json list \<Rightarrow> event list
     \<Rightarrow> (py_error + json list \<times> event list) option" where
  "get_all_contact_ids_loop tr u contact_ids trace =
     (if url_truthy u then
        (case safe_request tr ''GET'' u None 5 trace of
           (resp, trace') \<Rightarrow>
             (case checked_200 resp of
                None \<Rightarrow> Some (Inr (contact_ids, trace'))
              | Some r \<Rightarrow>
                  (case contact_ids_page r of
                     Inl e \<Rightarrow> Some (Inl e)
                   | Inr (ids, next_url) \<Rightarrow>
                       get_all_contact_ids_loop tr (LinkUrl next_url) (contact_ids @ ids) trace')))
      else Some (Inr (contact_ids, trace)))"

definition get_all_contact_ids ::
  "transport \<Rightarrow> json \<Rightarrow> event list \<Rightarrow> (py_error + json list \<times> event list) option" where
  "get_all_contact_ids tr org_id trace =
     get_all_contact_ids_loop tr (OrgContactsUrl org_id) [] trace"

section \<open>License tags\<close>

text \<open>\<^verbatim>\<open>contact_has_ms_license\<close>: the attributes are read only for items of type "tags".\<close>

fun contact_has_ms_license_loop :: "json list \<Rightarrow> py_error + bool" where
  "contact_has_ms_license_loop [] = Inr False"
| "contact_has_ms_license_loop (item # rest) =
     bind_err (py_get item ''type'' JNull) (\<lambda>ty.
       if ty = JStr ''tags'' then
         bind_err (py_get item ''attributes'' (JObj [])) (\<lambda>attrs.
         bind_err (py_get attrs ''resource-type-name'' JNull) (\<lambda>rtn.
           if rtn = JStr ''Microsoft Licenses'' then Inr True
           else contact_has_ms_license_loop rest))
       else contact_has_ms_license_loop rest)"

definition contact_has_ms_license :: "json \<Rightarrow> py_error + bool" where
  "contact_has_ms_license contact_data =
     bind_err (py_get contact_data ''included'' (JArr [])) (\<lambda>included.
     bind_err (py_iter included) (\<lambda>items.
       contact_has_ms_license_loop items))"

section \<open>The Contact Filter Engine\<close>

text \<open>
  \<^verbatim>\<open>get_microsoft_only_contacts\<close>. The detail requests run on a thread pool and
  complete in an order the script does not control, so the results of the futures, in
  completion order, are the argument \<open>fetched\<close>: each is \<^verbatim>\<open>(contact_id, contact_resp)\<close>
  as \<^verbatim>\<open>fetch_contact_details\<close> returns it. The function is the loop over them; \<open>contact_passes_filter\<close>
  is the part of its body after \<^verbatim>\<open>contact_resp.json()\<close>: the three classifications,
  all evaluated before the test, and the test.
\<close>

definition contact_passes_filter :: "bool \<Rightarrow> json \<Rightarrow> py_error + bool" where
  "contact_passes_filter licensed contact_data =
     bind_err (contact_syncs_with contact_data ''Microsoft'') (\<lambda>syncs_with_microsoft.
     bind_err (contact_syncs_with contact_data ''Autotask'') (\<lambda>syncs_with_autotask.
     bind_err (contact_has_ms_license contact_data) (\<lambda>has_license.
       Inr (syncs_with_microsoft \<and> \<not> syncs_with_autotask \<and>
            ((licensed \<and> has_license) \<or> (\<not> licensed \<and> \<not> has_license))))))"

fun get_microsoft_only_contacts_loop ::
  "bool \<Rightarrow> (json \<times> response option) list \<Rightarrow> (json \<times> json) list
     \<Rightarrow> py_error + (json \<times> json) list" where
  "get_microsoft_only_contacts_loop licensed [] ms_only_contacts = Inr ms_only_contacts"
| "get_microsoft_only_contacts_loop licensed ((contact_id, contact_resp) # rest) ms_only_contacts =
     (case checked_200 contact_resp of
        None \<Rightarrow> get_microsoft_only_contacts_loop licensed rest ms_only_contacts
      | Some r \<Rightarrow>
          bind_err (resp_json r) (\<lambda>contact_data.
          bind_err (contact_passes_filter licensed contact_data) (\<lambda>passes.
            get_microsoft_only_contacts_loop licensed rest
              (if passes then ms_only_contacts @ [(contact_id, contact_data)]
               else ms_only_contacts))))"

definition get_microsoft_only_contacts ::
  "bool \<Rightarrow> (json \<times> response option) list \<Rightarrow> py_error + (json \<times> json) list" where
  "get_microsoft_only_contacts licensed fetched =
     get_microsoft_only_contacts_loop licensed fetched []"

section \<open>The Contact Field Extractor\<close>

text \<open>
  \<^verbatim>\<open>extract_emails_and_phones\<close> fills two Python sets and returns them as lists whose
  order is the sets' iteration order, which the language leaves open; the model returns
  the two sets. The loops over "contact-emails" and over "contact-phones" have the same
  body (\<open>add_entry_values\<close>).
\<close>

fun add_entry_values ::
  "str_methods \<Rightarrow> json list \<Rightarrow> string set \<Rightarrow> py_error + string set" where
  "add_entry_values py [] acc = Inr acc"
| "add_entry_values py (entry # rest) acc =
     bind_err (py_get entry ''value'' JNull) (\<lambda>val.
       if truthy val then
         bind_err (py_strip_of py val) (\<lambda>s. add_entry_values py rest (insert s acc))
       else add_entry_values py rest acc)"

fun add_email_fields ::
  "str_methods \<Rightarrow> json \<Rightarrow> string list \<Rightarrow> string set \<Rightarrow> py_error + string set" where
  "add_email_fields py attrs [] emails = Inr emails"
| "add_email_fields py attrs (field # rest) emails =
     bind_err (py_get attrs field JNull) (\<lambda>val.
       if truthy val then
         bind_err (py_strip_of py val) (\<lambda>s. add_email_fields py attrs rest (insert s emails))
       else add_email_fields py attrs rest emails)"

fun add_phone_fields ::
  "str_methods \<Rightarrow> json \<Rightarrow> string list \<Rightarrow> string set \<Rightarrow> py_error + string set" where
  "add_phone_fields py attrs [] phones = Inr phones"
| "add_phone_fields py attrs (field # rest) phones =
     bind_err (py_get attrs field JNull) (\<lambda>val.
       if truthy val then
         bind_err (py_strip_of py val) (\<lambda>s.
           if str_lower py s \<noteq> ''n/a''
           then add_phone_fields py attrs rest (insert s phones)
           else add_phone_fields py attrs rest phones)
       else add_phone_fields py attrs rest phones)"

fun add_contact_methods ::
  "str_methods \<Rightarrow> json list \<Rightarrow> string set \<Rightarrow> string set
     \<Rightarrow> py_error + string set \<times> string set" where
  "add_contact_methods py [] emails phones = Inr (emails, phones)"
| "add_contact_methods py (item # rest) emails phones =
     bind_err (py_get item ''type'' JNull) (\<lambda>ty.
       if ty = JStr ''contact_methods'' then
         bind_err (py_get item ''attributes'' (JObj [])) (\<lambda>attr.
         bind_err (py_get attr ''label'' (JStr [])) (\<lambda>raw_label.
         bind_err (py_lower_of py raw_label) (\<lambda>label.
         bind_err (py_get attr ''value'' (JStr [])) (\<lambda>val.
           if truthy val then
             if py_in_str ''email'' label then
               bind_err (py_strip_of py val) (\<lambda>s.
                 add_contact_methods py rest (insert s emails) phones)
             else if py_in_str ''phone'' label \<or> py_in_str ''mobile'' label
                     \<or> py_in_str ''fax'' label then
               bind_err (py_strip_of py val) (\<lambda>s.
                 add_contact_methods py rest emails (insert s phones))
             else add_contact_methods py rest emails phones
           else add_contact_methods py rest emails phones))))
       else add_contact_methods py rest emails phones)"

definition extract_emails_and_phones ::
  "str_methods \<Rightarrow> json \<Rightarrow> py_error + string set \<times> string set" where
  "extract_emails_and_phones py contact_data =
     bind_err (py_get contact_data ''data'' (JObj [])) (\<lambda>data.
     bind_err (py_get data ''attributes'' (JObj [])) (\<lambda>attrs.
     bind_err (py_get attrs ''contact-emails'' (JArr [])) (\<lambda>email_list.
     bind_err (py_iter email_list) (\<lambda>email_entries.
     bind_err (add_entry_values py email_entries {}) (\<lambda>emails1.
     bind_err (py_get attrs ''contact-phones'' (JArr [])) (\<lambda>phone_list.
     bind_err (py_iter phone_list) (\<lambda>phone_entries.
     bind_err (add_entry_values py phone_entries {}) (\<lambda>phones1.
     bind_err (add_email_fields py attrs
                 [''emailAddress'', ''emailAddress2'', ''emailAddress3''] emails1) (\<lambda>emails2.
     bind_err (add_phone_fields py attrs
                 [''phone'', ''mobilePhone'', ''alternatePhone'', ''faxNumber'', ''extension'']
                 phones1) (\<lambda>phones2.
     bind_err (py_get contact_data ''included'' (JArr [])) (\<lambda>included.
     bind_err (py_iter included) (\<lambda>items.
       add_contact_methods py items emails2 phones2))))))))))))"

section \<open>The destination company\<close>

text \<open>
  \<^verbatim>\<open>get_autotask_remote_id_from_included\<close>: the loop returns at the first item whose
  adapter name is "Autotask"; it reads no other attribute of the item than "remote-id".
\<close>

fun get_autotask_remote_id_loop :: "json list \<Rightarrow> py_error + json" where
  "get_autotask_remote_id_loop [] = Inr JNull"
| "get_autotask_remote_id_loop (item # rest) =
     bind_err (py_get item ''attributes'' (JObj [])) (\<lambda>attrs.
     bind_err (py_get attrs ''adapter-type-name'' JNull) (\<lambda>adapter.
       if adapter = JStr ''Autotask'' then py_get attrs ''remote-id'' JNull
       else get_autotask_remote_id_loop rest))"

definition get_autotask_remote_id_from_included :: "json \<Rightarrow> py_error + json" where
  "get_autotask_remote_id_from_included included =
     bind_err (py_iter included) get_autotask_remote_id_loop"

section \<open>The Ticketing Dedup and Create Pipeline\<close>





text \<open>
  The candidate payload is the dictionary that \<^verbatim>\<open>main\<close> builds with exactly four keys.
  "email" and "phone" are elements of the extractor's sets (or the empty string), hence
  strings; "firstName" and "lastName" are whatever the Directory Service sent.
\<close>

record contact_payload =
  firstName :: json
  lastName :: json
  email :: string
  phone :: string

text \<open>
  \<^verbatim>\<open>create_contact_in_autotask\<close> returns its boolean together with the cache, which the
  source mutates in place, and the history. For a string, \<^verbatim>\<open>s or ""\<close> is \<open>s\<close>.
\<close>

definition create_contact_in_autotask ::
  "str_methods \<Rightarrow> transport \<Rightarrow> json \<Rightarrow> contact_payload \<Rightarrow> string set \<Rightarrow> event list
     \<Rightarrow> bool \<times> string set \<times> event list" where
  "create_contact_in_autotask py tr company_id contact_data existing_emails_cache trace =
     (let email_key = str_lower py (str_strip py (email contact_data)) in
      if email_key \<noteq> [] \<and> email_key \<in> existing_emails_cache then
        (False, existing_emails_cache, trace)
      else
        let first = py_or_empty (firstName contact_data);
            last = py_or_empty (lastName contact_data)
        in
          if \<not> truthy last then (False, existing_emails_cache, trace)
          else if email_key = [] then (False, existing_emails_cache, trace)
          else
            let payload = JObj [(''IsActive'', JNum 1), (''FirstName'', first),
                                (''LastName'', last), (''EmailAddress'', JStr email_key),
                                (''Phone'', JStr (phone contact_data))]
            in case safe_request tr ''POST'' (CompanyContactsUrl company_id) (Some payload) 5 trace of
                 (resp, trace') \<Rightarrow>
                   (case resp of
                      None \<Rightarrow> (False, existing_emails_cache, trace')
                    | Some r \<Rightarrow>
                        if \<not> response_ok r then (False, existing_emails_cache, trace')
                        else if status_code r \<noteq> 200 then (False, existing_emails_cache, trace')
                        else (True, insert email_key existing_emails_cache, trace')))"




section \<open>The Organization Scanner\<close>

text \<open>
  First pass of \<^verbatim>\<open>get_autotask_syncing_orgs\<close>: numbered pages until a request fails or a
  page has no organizations. \<^verbatim>\<open>while True\<close> ends only by \<^verbatim>\<open>break\<close>, so the loop is partial.
\<close>

definition orgs_page :: "response \<Rightarrow> py_error + json" where
  "orgs_page resp = bind_err (resp_json resp) (\<lambda>data. py_get data ''data'' (JArr []))"

partial_function (option) fetch_orgs_loop ::
  "transport \<Rightarrow> int \<Rightarrow> json list \<Rightarrow> event list
     \<Rightarrow> (py_error + json list \<times> event list) option" where
  "fetch_orgs_loop tr page all_orgs trace =
     (case safe_request tr ''GET'' (OrgsPageUrl page) None 5 trace of
        (resp, trace') \<Rightarrow>
          (case checked_200 resp of
             None \<Rightarrow> Some (Inr (all_orgs, trace'))
           | Some r \<Rightarrow>
               (case orgs_page r of
                  Inl e \<Rightarrow> Some (Inl e)
                | Inr orgs \<Rightarrow>
                    if \<not> truthy orgs then Some (Inr (all_orgs, trace'))
                    else
                      (case py_iter orgs of
                         Inl e \<Rightarrow> Some (Inl e)
                       | Inr listed \<Rightarrow>
                           fetch_orgs_loop tr (page + 1) (all_orgs @ listed) trace'))))"

text \<open>
  The inner loop of the second pass: does some item have adapter name "Autotask", a
  truthy "sync" and a falsy "orphaned"? It stops at the first such item.
\<close>

fun org_syncing_loop :: "json list \<Rightarrow> py_error + bool" where
  "org_syncing_loop [] = Inr False"
| "org_syncing_loop (item # rest) =
     bind_err (py_get item ''attributes'' (JObj [])) (\<lambda>attributes.
     bind_err (py_get attributes ''adapter-type-name'' JNull) (\<lambda>adapter.
     bind_err (py_get attributes ''sync'' JNull) (\<lambda>sync.
     bind_err (py_get attributes ''orphaned'' JNull) (\<lambda>orphaned.
       if adapter = JStr ''Autotask'' \<and> truthy sync \<and> \<not> truthy orphaned then Inr True
       else org_syncing_loop rest))))"

text \<open>
  The body of the second pass for one organization: its id and name, the detail
  request, and the triple to append (\<open>None\<close>: nothing is appended).
\<close>

definition check_org ::
  "transport \<Rightarrow> json \<Rightarrow> event list
     \<Rightarrow> py_error + (json \<times> json \<times> json) option \<times> event list" where
  "check_org tr org trace =
     bind_err (py_index org ''id'') (\<lambda>org_id.
     bind_err (py_index org ''attributes'') (\<lambda>org_attributes.
     bind_err (py_index org_attributes ''name'') (\<lambda>org_name.
       case safe_request tr ''GET'' (OrgDetailUrl org_id) None 5 trace of
         (detail_resp, trace') \<Rightarrow>
           (case checked_200 detail_resp of
              None \<Rightarrow> Inr (None, trace')
            | Some r \<Rightarrow>
                bind_err (resp_json r) (\<lambda>detail.
                bind_err (py_get detail ''included'' (JArr [])) (\<lambda>included.
                bind_err (py_iter included) (\<lambda>items.
                bind_err (org_syncing_loop items) (\<lambda>syncing.
                  Inr (if syncing then Some (org_id, org_name, included) else None,
                       trace')))))))))"

fun check_orgs ::
  "transport \<Rightarrow> json list \<Rightarrow> (json \<times> json \<times> json) list \<Rightarrow> event list
     \<Rightarrow> py_error + (json \<times> json \<times> json) list \<times> event list" where
  "check_orgs tr [] autotask_orgs trace = Inr (autotask_orgs, trace)"
| "check_orgs tr (org # rest) autotask_orgs trace =
     bind_err (check_org tr org trace) (\<lambda>(found, trace').
       check_orgs tr rest
         (case found of None \<Rightarrow> autotask_orgs | Some triple \<Rightarrow> autotask_orgs @ [triple])
         trace')"

definition get_autotask_syncing_orgs ::
  "transport \<Rightarrow> event list
     \<Rightarrow> (py_error + (json \<times> json \<times> json) list \<times> event list) option" where
  "get_autotask_syncing_orgs tr trace =
     (case fetch_orgs_loop tr 1 [] trace of
        None \<Rightarrow> None
      | Some (Inl e) \<Rightarrow> Some (Inl e)
      | Some (Inr (all_orgs, trace')) \<Rightarrow> Some (check_orgs tr all_orgs [] trace'))"

section \<open>The organization loop of main\<close>

text \<open>
  For one triple of \<^verbatim>\<open>syncing_orgs\<close>, the head of the loop body in \<^verbatim>\<open>main\<close>: an
  organization on the exclusion list is skipped, and so is one whose remote id is
  falsy; otherwise the remote id is the company id of every candidate of the
  organization. \<open>None\<close> is \<^verbatim>\<open>continue\<close>. The exclusion list holds strings, so only a
  string id can be on it.
\<close>

definition main_destination ::
  "string list \<Rightarrow> json \<times> json \<times> json \<Rightarrow> py_error + json option" where
  "main_destination exclude_ids org =
     (case org of (org_id, name, included) \<Rightarrow>
        if org_id \<in> set (map JStr exclude_ids) then Inr None
        else
          bind_err (get_autotask_remote_id_from_included included) (\<lambda>autotask_remote_id.
            if \<not> truthy autotask_remote_id then Inr None
            else Inr (Some autotask_remote_id)))"

section \<open>Vocabulary of the specification\<close>

text \<open>
  An included item of the Directory Service is a resource object: a dictionary whose
  "attributes" member, when present, is a dictionary. On such items no expression of
  the classification loops raises. \<open>item_attr\<close> reads one attribute of an item
  (\<^verbatim>\<open>None\<close> when the attribute or the attributes member is missing), \<open>item_type\<close>
  its "type" member.
\<close>

fun is_obj :: "json \<Rightarrow> bool" where
  "is_obj (JObj kvs) = True"
| "is_obj _ = False"

fun member_of :: "json \<Rightarrow> string \<Rightarrow> json option" where
  "member_of (JObj kvs) k = map_of kvs k"
| "member_of _ k = None"

definition wf_item :: "json \<Rightarrow> bool" where
  "wf_item item =
     (is_obj item \<and> (case member_of item ''attributes'' of None \<Rightarrow> True | Some a \<Rightarrow> is_obj a))"

definition item_attr :: "json \<Rightarrow> string \<Rightarrow> json" where
  "item_attr item k =
     (case member_of item ''attributes'' of
        None \<Rightarrow> JNull
      | Some a \<Rightarrow> (case member_of a k of None \<Rightarrow> JNull | Some v \<Rightarrow> v))"

definition item_type :: "json \<Rightarrow> json" where
  "item_type item = (case member_of item ''type'' of None \<Rightarrow> JNull | Some v \<Rightarrow> v)"

definition adapter_is :: "string \<Rightarrow> json \<Rightarrow> bool" where
  "adapter_is adapter item = (item_attr item ''adapter-type-name'' = JStr adapter)"

definition syncs_item :: "string \<Rightarrow> json \<Rightarrow> bool" where
  "syncs_item adapter item = (adapter_is adapter item \<and> truthy (item_attr item ''sync''))"

definition license_item :: "json \<Rightarrow> bool" where
  "license_item item =
     (item_type item = JStr ''tags'' \<and>
      item_attr item ''resource-type-name'' = JStr ''Microsoft Licenses'')"

definition active_item :: "json \<Rightarrow> bool" where
  "active_item item =
     (adapter_is ''Autotask'' item \<and> truthy (item_attr item ''sync'')
      \<and> \<not> truthy (item_attr item ''orphaned''))"

text \<open>
  A well-formed detail document is a dictionary whose "included" member, when present,
  is a list of well-formed items; \<open>included_of\<close> is that list.
\<close>

definition included_of :: "json \<Rightarrow> json list" where
  "included_of d =
     (case member_of d ''included'' of
        None \<Rightarrow> []
      | Some v \<Rightarrow> (case v of JArr xs \<Rightarrow> xs | _ \<Rightarrow> []))"

definition wf_document :: "json \<Rightarrow> bool" where
  "wf_document d =
     (is_obj d \<and>
      (case member_of d ''included'' of
         None \<Rightarrow> True
       | Some v \<Rightarrow> (case v of JArr xs \<Rightarrow> list_all wf_item xs | _ \<Rightarrow> False)))"

text \<open>
  What a future of the filter engine delivered: the document of a response that passed
  the guard. The specification keeps a contact when \<open>spec_keeps\<close> holds of its document.
\<close>

definition fetched_document :: "response option \<Rightarrow> json option" where
  "fetched_document resp = (case checked_200 resp of None \<Rightarrow> None | Some r \<Rightarrow> json_body r)"

definition wf_response :: "response option \<Rightarrow> bool" where
  "wf_response resp =
     (case checked_200 resp of
        None \<Rightarrow> True
      | Some r \<Rightarrow> (case json_body r of None \<Rightarrow> False | Some d \<Rightarrow> wf_document d))"

definition wf_fetched :: "json \<times> response option \<Rightarrow> bool" where
  "wf_fetched f = wf_response (snd f)"

definition spec_keeps :: "bool \<Rightarrow> json \<Rightarrow> bool" where
  "spec_keeps licensed d =
     ((\<exists>item\<in>set (included_of d). syncs_item ''Microsoft'' item)
      \<and> \<not> (\<exists>item\<in>set (included_of d). syncs_item ''Autotask'' item)
      \<and> (licensed \<longleftrightarrow> (\<exists>item\<in>set (included_of d). license_item item)))"

definition spec_kept :: "bool \<Rightarrow> json \<times> response option \<Rightarrow> (json \<times> json) option" where
  "spec_kept licensed f =
     (case fetched_document (snd f) of
        None \<Rightarrow> None
      | Some d \<Rightarrow> if spec_keeps licensed d then Some (fst f, d) else None)"

text \<open>
  An attempt of the executor fails when the transport raises or answers with a status of
  400 or more. \<open>retry_events m u b first n\<close> is what \<open>n\<close> failed attempts numbered from
  \<open>first\<close> leave in the history: each request followed by a sleep of \<open>2 ^ i\<close> seconds.
\<close>

definition attempt_failed :: "outcome \<Rightarrow> bool" where
  "attempt_failed out = (case out of Raised \<Rightarrow> True | Got r \<Rightarrow> \<not> status_code r < 400)"

definition retry_events :: "string \<Rightarrow> url \<Rightarrow> json option \<Rightarrow> nat \<Rightarrow> nat \<Rightarrow> event list" where
  "retry_events method u body first n =
     concat (map (\<lambda>i. [Requested method u body, Slept (2 ^ i)]) [first..<first + n])"

text \<open>
  The scanner. \<open>org_entry\<close> is the id and the name that the second pass reads from a
  list entry (\<open>None\<close> when one of the subscripts raises). \<open>detail_fetches\<close> is the
  sequence of detail responses that the executor delivers when the organizations are
  requested one after the other, each in the history the one before left. The
  specification returns an organization when its detail was fetched and some included
  item is active; the triple is its id, its name and its included list.
\<close>

definition org_entry :: "json \<Rightarrow> (json \<times> json) option" where
  "org_entry org =
     (case bind_err (py_index org ''id'') (\<lambda>org_id.
           bind_err (py_index org ''attributes'') (\<lambda>org_attributes.
           bind_err (py_index org_attributes ''name'') (\<lambda>org_name.
             Inr (org_id, org_name)))) of
        Inl e \<Rightarrow> None
      | Inr entry \<Rightarrow> Some entry)"

fun detail_fetches :: "transport \<Rightarrow> json list \<Rightarrow> event list \<Rightarrow> response option list" where
  "detail_fetches tr [] trace = []"
| "detail_fetches tr (org # rest) trace =
     (case org_entry org of
        None \<Rightarrow> []
      | Some (org_id, org_name) \<Rightarrow>
          (case safe_request tr ''GET'' (OrgDetailUrl org_id) None 5 trace of
             (resp, trace') \<Rightarrow> resp # detail_fetches tr rest trace'))"

definition spec_syncing_triple ::
  "json \<times> response option \<Rightarrow> (json \<times> json \<times> json) option" where
  "spec_syncing_triple fetched =
     (case org_entry (fst fetched) of
        None \<Rightarrow> None
      | Some (org_id, org_name) \<Rightarrow>
          (case fetched_document (snd fetched) of
             None \<Rightarrow> None
           | Some d \<Rightarrow>
               if \<exists>item\<in>set (included_of d). active_item item
               then Some (org_id, org_name, JArr (included_of d))
               else None))"





text \<open>
  The pagination walker. A page document lists the ids \<open>ids\<close>, in this order, and has
  the next link \<open>next_url\<close>: its "data" member is a list of resource objects whose "id"
  members are \<open>ids\<close>, one for one, and \<open>next_url\<close> is the "next" member of its "links"
  member (\<^verbatim>\<open>None\<close> when the document has no next link). A page is fetched when the
  executor returns a response with status 200 that carries such a document; a fetch
  fails when the executor returns \<^verbatim>\<open>None\<close> or a response whose status is not 200. A
  link is a non-empty string.
\<close>

definition page_of :: "json \<Rightarrow> json list \<Rightarrow> json \<Rightarrow> bool" where
  "page_of doc ids next_url =
     (is_obj doc
      \<and> (case member_of doc ''data'' of
           None \<Rightarrow> ids = []
         | Some listed \<Rightarrow>
             (case listed of
                JArr items \<Rightarrow> map (\<lambda>item. member_of item ''id'') items = map Some ids
              | _ \<Rightarrow> False))
      \<and> (case member_of doc ''links'' of
           None \<Rightarrow> next_url = JNull
         | Some links \<Rightarrow>
             is_obj links
             \<and> next_url = (case member_of links ''next'' of None \<Rightarrow> JNull | Some v \<Rightarrow> v)))"

definition fetched_page :: "response option \<Rightarrow> json list \<Rightarrow> json \<Rightarrow> bool" where
  "fetched_page resp ids next_url =
     (case resp of
        None \<Rightarrow> False
      | Some r \<Rightarrow>
          status_code r = 200
          \<and> (case json_body r of None \<Rightarrow> False | Some doc \<Rightarrow> page_of doc ids next_url))"

definition fetch_fails :: "response option \<Rightarrow> bool" where
  "fetch_fails resp = (case resp of None \<Rightarrow> True | Some r \<Rightarrow> status_code r \<noteq> 200)"

definition is_link :: "json \<Rightarrow> bool" where
  "is_link v = (case v of JStr s \<Rightarrow> s \<noteq> [] | _ \<Rightarrow> False)"

text \<open>
  The walk from the URL \<open>u\<close> is served the pages \<open>pages\<close>, each given by the ids it
  lists and its next link: the fetch of \<open>u\<close> delivers the first page, and the rest is
  served from that page's link, in the history reached. Every page but the last links
  on. Either the last page has no next link, or (\<open>then_fails\<close>) it links on too and the
  fetch of the page after it fails.
\<close>

fun walk_serves ::
  "transport \<Rightarrow> url \<Rightarrow> event list \<Rightarrow> (json list \<times> json) list \<Rightarrow> bool \<Rightarrow> bool" where
  "walk_serves tr u trace [] then_fails =
     (then_fails \<and> fetch_fails (fst (safe_request tr ''GET'' u None 5 trace)))"
| "walk_serves tr u trace ((ids, next_url) # pages) then_fails =
     (case safe_request tr ''GET'' u None 5 trace of
        (resp, trace') \<Rightarrow>
          fetched_page resp ids next_url
          \<and> (if pages = [] \<and> \<not> then_fails then next_url = JNull
             else is_link next_url
                  \<and> walk_serves tr (LinkUrl next_url) trace' pages then_fails))"

text \<open>
  The field extractor. A contact document is well formed when it is a dictionary whose
  "data" member and its "attributes" member, when present, are dictionaries; the lists
  "contact-emails" and "contact-phones", when present, are lists of dictionaries whose
  "value" is a string or \<^verbatim>\<open>None\<close>; each of the eight flat fields is a string or \<^verbatim>\<open>None\<close>;
  and "included", when present, is a list of resource objects, a contact method among
  them having a string label (or none) and a string value (or none).

  The email values of a document come from three sources, in this order: the "value"
  of every entry of "contact-emails"; the three flat fields; the "value" of every
  included contact method whose lower-cased label contains "email". The specification's
  email set holds every non-empty value, trimmed, and nothing else; its members are
  compared as strings, so two values are one member exactly when their trimmed forms
  are the same string.
\<close>

definition field_of :: "json \<Rightarrow> string \<Rightarrow> json" where
  "field_of j k = (case member_of j k of None \<Rightarrow> JNull | Some v \<Rightarrow> v)"

definition text_of :: "json \<Rightarrow> string" where
  "text_of v = (case v of JStr s \<Rightarrow> s | _ \<Rightarrow> [])"

definition text_or_none :: "json \<Rightarrow> bool" where
  "text_or_none v = (case v of JNull \<Rightarrow> True | JStr s \<Rightarrow> True | _ \<Rightarrow> False)"

fun is_str :: "json \<Rightarrow> bool" where
  "is_str (JStr s) = True"
| "is_str _ = False"

definition attributes_of :: "json \<Rightarrow> json" where
  "attributes_of d =
     (case member_of d ''data'' of
        None \<Rightarrow> JObj []
      | Some x \<Rightarrow> (case member_of x ''attributes'' of None \<Rightarrow> JObj [] | Some a \<Rightarrow> a))"

definition entries_of :: "json \<Rightarrow> string \<Rightarrow> json list" where
  "entries_of attrs k =
     (case member_of attrs k of
        None \<Rightarrow> []
      | Some v \<Rightarrow> (case v of JArr es \<Rightarrow> es | _ \<Rightarrow> []))"

definition wf_entry :: "json \<Rightarrow> bool" where
  "wf_entry e = (is_obj e \<and> text_or_none (field_of e ''value''))"

definition wf_entries :: "json \<Rightarrow> string \<Rightarrow> bool" where
  "wf_entries attrs k =
     (case member_of attrs k of
        None \<Rightarrow> True
      | Some v \<Rightarrow> (case v of JArr es \<Rightarrow> list_all wf_entry es | _ \<Rightarrow> False))"

definition is_method :: "json \<Rightarrow> bool" where
  "is_method item = (item_type item = JStr ''contact_methods'')"

definition wf_method_item :: "json \<Rightarrow> bool" where
  "wf_method_item item =
     (wf_item item
      \<and> (if is_method item
         then (case member_of item ''attributes'' of
                 None \<Rightarrow> True
               | Some a \<Rightarrow> (case member_of a ''label'' of None \<Rightarrow> True | Some l \<Rightarrow> is_str l))
              \<and> text_or_none (item_attr item ''value'')
         else True))"

definition wf_contact_document :: "json \<Rightarrow> bool" where
  "wf_contact_document d =
     (is_obj d
      \<and> (case member_of d ''data'' of
           None \<Rightarrow> True
         | Some x \<Rightarrow>
             is_obj x
             \<and> (case member_of x ''attributes'' of None \<Rightarrow> True | Some a \<Rightarrow> is_obj a))
      \<and> wf_entries (attributes_of d) ''contact-emails''
      \<and> wf_entries (attributes_of d) ''contact-phones''
      \<and> list_all (\<lambda>k. text_or_none (field_of (attributes_of d) k))
           [''emailAddress'', ''emailAddress2'', ''emailAddress3'', ''phone'',
            ''mobilePhone'', ''alternatePhone'', ''faxNumber'', ''extension'']
      \<and> (case member_of d ''included'' of
           None \<Rightarrow> True
         | Some v \<Rightarrow> (case v of JArr items \<Rightarrow> list_all wf_method_item items | _ \<Rightarrow> False)))"

definition email_method :: "str_methods \<Rightarrow> json \<Rightarrow> bool" where
  "email_method py item =
     (is_method item
      \<and> py_in_str ''email'' (str_lower py (text_of (item_attr item ''label''))))"

definition spec_email_values :: "str_methods \<Rightarrow> json \<Rightarrow> string list" where
  "spec_email_values py d =
     map (\<lambda>e. text_of (field_of e ''value'')) (entries_of (attributes_of d) ''contact-emails'')
     @ map (\<lambda>k. text_of (field_of (attributes_of d) k))
         [''emailAddress'', ''emailAddress2'', ''emailAddress3'']
     @ map (\<lambda>item. text_of (item_attr item ''value''))
         (filter (email_method py) (included_of d))"

definition spec_emails :: "str_methods \<Rightarrow> json \<Rightarrow> string set" where
  "spec_emails py d =
     set (map (str_strip py) (filter (\<lambda>v. v \<noteq> []) (spec_email_values py d)))"

subsection \<open>Example data\<close>

text \<open>
  A runtime for the examples. On strings of ASCII characters Python's two methods are
  these functions: \<^verbatim>\<open>strip\<close> removes the ASCII whitespace characters from both ends and
  \<^verbatim>\<open>lower\<close> replaces the letters A to Z. Every example string below is ASCII.
\<close>

definition ascii_space :: "char \<Rightarrow> bool" where
  "ascii_space c =
     (c \<in> set [CHR 0x09, CHR 0x0A, CHR 0x0B, CHR 0x0C, CHR 0x0D,
               CHR 0x1C, CHR 0x1D, CHR 0x1E, CHR 0x1F, CHR 0x20])"

definition ascii_strip :: "string \<Rightarrow> string" where
  "ascii_strip s = rev (dropWhile ascii_space (rev (dropWhile ascii_space s)))"

definition ascii_lower_char :: "char \<Rightarrow> char" where
  "ascii_lower_char c =
     (case map_of (zip ''ABCDEFGHIJKLMNOPQRSTUVWXYZ'' ''abcdefghijklmnopqrstuvwxyz'') c of
        None \<Rightarrow> c
      | Some l \<Rightarrow> l)"

definition ascii_lower :: "string \<Rightarrow> string" where
  "ascii_lower s = map ascii_lower_char s"

definition ascii_methods :: str_methods where
  "ascii_methods = \<lparr>str_strip = ascii_strip, str_lower = ascii_lower\<rparr>"

text \<open>
  Included items: a relationship with the identity provider, a license tag, and three
  relationships with the Ticketing Service: one that syncs, one that is orphaned and
  does not sync (remote id "111"), and a live one (remote id "222").
\<close>

definition example_microsoft_item :: json where
  "example_microsoft_item =
     JObj [(''type'', JStr ''adapters_resources''),
           (''attributes'', JObj [(''adapter-type-name'', JStr ''Microsoft''),
                                  (''sync'', JBool True)])]"

definition example_license_tag :: json where
  "example_license_tag =
     JObj [(''type'', JStr ''tags''),
           (''attributes'', JObj [(''resource-type-name'', JStr ''Microsoft Licenses'')])]"

definition example_autotask_sync_item :: json where
  "example_autotask_sync_item =
     JObj [(''attributes'', JObj [(''adapter-type-name'', JStr ''Autotask''),
                                  (''sync'', JBool True)])]"

definition example_stale_autotask_item :: json where
  "example_stale_autotask_item =
     JObj [(''type'', JStr ''adapters_resources''),
           (''attributes'', JObj [(''adapter-type-name'', JStr ''Autotask''),
                                  (''sync'', JBool False), (''orphaned'', JBool True),
                                  (''remote-id'', JStr ''111'')])]"

definition example_live_autotask_item :: json where
  "example_live_autotask_item =
     JObj [(''type'', JStr ''adapters_resources''),
           (''attributes'', JObj [(''adapter-type-name'', JStr ''Autotask''),
                                  (''sync'', JBool True), (''orphaned'', JBool False),
                                  (''remote-id'', JStr ''222'')])]"

text \<open>
  Three futures of the filter engine: a licensed contact that syncs with the identity
  provider only, a failed request, and a contact that also syncs with the Ticketing
  Service.
\<close>

definition example_licensed_contact :: json where
  "example_licensed_contact =
     JObj [(''data'', JObj [(''id'', JStr ''1'')]),
           (''included'', JArr [example_microsoft_item, example_license_tag])]"

definition example_fetched :: "(json \<times> response option) list" where
  "example_fetched =
     [(JStr ''1'', Some \<lparr>status_code = 200, json_body = Some example_licensed_contact\<rparr>),
      (JStr ''2'', None),
      (JStr ''3'', Some \<lparr>status_code = 200, json_body = Some (JObj [(''included'',
         JArr [example_microsoft_item, example_autotask_sync_item])])\<rparr>)]"

text \<open>
  A contact whose emails come from all three sources, in two spellings of one address,
  one of them with surrounding blanks; it also has a mobile number and a license tag.
\<close>

definition example_contact_document :: json where
  "example_contact_document =
     JObj [(''data'', JObj [(''id'', JStr ''1''),
             (''attributes'', JObj [
                (''first-name'', JStr ''Jane''), (''last-name'', JStr ''Doe''),
                (''contact-emails'', JArr [JObj [(''value'', JStr ''Jane@X.com'')]]),
                (''emailAddress'', JStr ''jane@x.com''),
                (''emailAddress2'', JNull),
                (''phone'', JStr ''N/A'')])]),
           (''included'', JArr [
              JObj [(''type'', JStr ''contact_methods''),
                    (''attributes'', JObj [(''label'', JStr ''Work Email''),
                                           (''value'', JStr '' Jane@X.com  '')])],
              JObj [(''type'', JStr ''contact_methods''),
                    (''attributes'', JObj [(''label'', JStr ''Mobile''),
                                           (''value'', JStr ''555 0100'')])],
              example_license_tag])]"

text \<open>
  A Directory Service with the contacts of three organizations: "7", whose second page
  links to a third page that cannot be fetched; "8", with two pages, the second without
  a next link; and "9", whose first page links to a page that is answered with status
  204.
\<close>

definition example_page :: "json list \<Rightarrow> json \<Rightarrow> response" where
  "example_page ids next_url =
     \<lparr>status_code = 200,
      json_body = Some (JObj [(''data'', JArr (map (\<lambda>i. JObj [(''id'', i)]) ids)),
                              (''links'', JObj [(''next'', next_url)])])\<rparr>"

definition example_directory :: transport where
  "example_directory trace method u body =
     (if u = OrgContactsUrl (JStr ''7'')
        then Got (example_page [JStr ''a'', JStr ''b''] (JStr ''page2''))
      else if u = LinkUrl (JStr ''page2'')
        then Got (example_page [JStr ''c''] (JStr ''page3''))
      else if u = OrgContactsUrl (JStr ''8'')
        then Got (example_page [JStr ''d''] (JStr ''page9''))
      else if u = LinkUrl (JStr ''page9'')
        then Got (example_page [JStr ''e'', JStr ''d''] JNull)
      else if u = OrgContactsUrl (JStr ''9'')
        then Got (example_page [JStr ''f''] (JStr ''moved''))
      else if u = LinkUrl (JStr ''moved'')
        then Got ((example_page [JStr ''g''] JNull)\<lparr>status_code := 204\<rparr>)
      else Got \<lparr>status_code = 503, json_body = None\<rparr>)"

text \<open>
  A Directory Service with three organizations on one page: "Acme" with a live
  Ticketing relationship, "Beta" with an orphaned one, and "Gamma", whose detail cannot
  be fetched.
\<close>

definition example_org :: "string \<Rightarrow> string \<Rightarrow> json" where
  "example_org org_id org_name =
     JObj [(''id'', JStr org_id), (''type'', JStr ''organizations''),
           (''attributes'', JObj [(''name'', JStr org_name)])]"

definition example_orgs_service :: transport where
  "example_orgs_service trace method u body =
     (if u = OrgsPageUrl 1 then
        Got \<lparr>status_code = 200, json_body = Some (JObj [(''data'',
          JArr [example_org ''1'' ''Acme'', example_org ''2'' ''Beta'',
                example_org ''3'' ''Gamma''])])\<rparr>
      else if u = OrgsPageUrl 2 then
        Got \<lparr>status_code = 200, json_body = Some (JObj [(''data'', JArr [])])\<rparr>
      else if u = OrgDetailUrl (JStr ''1'') then
        Got \<lparr>status_code = 200, json_body = Some (JObj [(''included'',
          JArr [example_microsoft_item, example_live_autotask_item])])\<rparr>
      else if u = OrgDetailUrl (JStr ''2'') then
        Got \<lparr>status_code = 200, json_body = Some (JObj [(''included'',
          JArr [example_stale_autotask_item])])\<rparr>
      else Got \<lparr>status_code = 503, json_body = None\<rparr>)"





section \<open>Properties of the classification\<close>

lemma wf_item_cases:
  assumes "wf_item item"
  obtains kvs where "item = JObj kvs" "map_of kvs ''attributes'' = None"
  | kvs avs where "item = JObj kvs" "map_of kvs ''attributes'' = Some (JObj avs)"
proof -
  from assms obtain kvs where item: "item = JObj kvs"
    by (cases item) (simp_all add: wf_item_def)
  show thesis
  proof (cases "map_of kvs ''attributes''")
    case None
    with item that(1) show thesis by blast
  next
    case (Some a)
    with assms item obtain avs where "a = JObj avs"
      by (cases a) (simp_all add: wf_item_def)
    with item Some that(2) show thesis by blast
  qed
qed

lemma syncs_step:
  assumes "wf_item item"
  shows "contact_syncs_with_loop (item # rest) t =
           (if syncs_item t item then Inr True else contact_syncs_with_loop rest t)"
  using assms
  by (cases item rule: wf_item_cases)
     (simp_all add: bind_err_def syncs_item_def adapter_is_def item_attr_def split: option.splits)

lemma syncs_loop_wf:
  "list_all wf_item xs \<Longrightarrow>
   contact_syncs_with_loop xs t = Inr (\<exists>item\<in>set xs. syncs_item t item)"
proof (induction xs)
  case Nil
  then show ?case by simp
next
  case (Cons item rest)
  then have "wf_item item" and "list_all wf_item rest" by simp_all
  with Cons.IH show ?case by (simp add: syncs_step del: contact_syncs_with_loop.simps)
qed

lemma license_step:
  assumes "wf_item item"
  shows "contact_has_ms_license_loop (item # rest) =
           (if license_item item then Inr True else contact_has_ms_license_loop rest)"
  using assms
  by (cases item rule: wf_item_cases)
     (simp_all add: bind_err_def license_item_def item_attr_def item_type_def
               split: option.splits)

lemma license_loop_wf:
  "list_all wf_item xs \<Longrightarrow>
   contact_has_ms_license_loop xs = Inr (\<exists>item\<in>set xs. license_item item)"
proof (induction xs)
  case Nil
  then show ?case by simp
next
  case (Cons item rest)
  then have "wf_item item" and "list_all wf_item rest" by simp_all
  with Cons.IH show ?case by (simp add: license_step del: contact_has_ms_license_loop.simps)
qed

lemma wf_document_included:
  assumes "wf_document d"
  shows "bind_err (py_get d ''included'' (JArr [])) py_iter = Inr (included_of d)"
    and "list_all wf_item (included_of d)"
proof -
  from assms obtain kvs where d: "d = JObj kvs"
    by (cases d) (simp_all add: wf_document_def)
  show "bind_err (py_get d ''included'' (JArr [])) py_iter = Inr (included_of d)"
    using assms
    by (auto simp: d wf_document_def included_of_def bind_err_def
             split: option.splits json.splits)
  show "list_all wf_item (included_of d)"
    using assms
    by (auto simp: d wf_document_def included_of_def split: option.splits json.splits)
qed

lemma bind_err_assoc:
  "bind_err (bind_err m f) g = bind_err m (\<lambda>x. bind_err (f x) g)"
  by (cases m) (simp_all add: bind_err_def)

lemma syncs_with_wf:
  assumes "wf_document d"
  shows "contact_syncs_with d t = Inr (\<exists>item\<in>set (included_of d). syncs_item t item)"
proof -
  have "contact_syncs_with d t =
          bind_err (bind_err (py_get d ''included'' (JArr [])) py_iter)
            (\<lambda>items. contact_syncs_with_loop items t)"
    by (simp add: contact_syncs_with_def bind_err_assoc)
  also have "\<dots> = contact_syncs_with_loop (included_of d) t"
    unfolding wf_document_included(1)[OF assms] by (simp add: bind_err_def)
  finally show ?thesis
    by (simp add: syncs_loop_wf wf_document_included(2)[OF assms])
qed

lemma has_license_wf:
  assumes "wf_document d"
  shows "contact_has_ms_license d = Inr (\<exists>item\<in>set (included_of d). license_item item)"
proof -
  have "contact_has_ms_license d =
          bind_err (bind_err (py_get d ''included'' (JArr [])) py_iter)
            contact_has_ms_license_loop"
    by (simp add: contact_has_ms_license_def bind_err_assoc)
  also have "\<dots> = contact_has_ms_license_loop (included_of d)"
    unfolding wf_document_included(1)[OF assms] by (simp add: bind_err_def)
  finally show ?thesis
    by (simp add: license_loop_wf wf_document_included(2)[OF assms])
qed

text \<open>
  Claim C8. \<^verbatim>\<open>contact_syncs_with\<close> and \<^verbatim>\<open>contact_has_ms_license\<close> depend on the document
  only through its included list, and on that list only through the set of its items:
  two well-formed documents whose included lists have the same items, in any order and
  with any repetition, get the same answers for every adapter name, and both functions
  return (they do not raise).
\<close>

theorem classification_order_independent:
  assumes "wf_document d" and "wf_document d'"
      and "set (included_of d') = set (included_of d)"
  shows "contact_syncs_with d' adapter = contact_syncs_with d adapter
       \<and> contact_has_ms_license d' = contact_has_ms_license d
       \<and> (\<exists>b. contact_syncs_with d adapter = Inr b)
       \<and> (\<exists>b. contact_has_ms_license d = Inr b)"
  using assms by (simp add: syncs_with_wf has_license_wf)

theorem classification_order_independent_witness:
  "contact_syncs_with
      (JObj [(''id'', JStr ''1''),
             (''included'', JArr [example_license_tag, example_microsoft_item,
                                  example_license_tag])]) ''Microsoft''
     = contact_syncs_with example_licensed_contact ''Microsoft''
   \<and> contact_has_ms_license
      (JObj [(''id'', JStr ''1''),
             (''included'', JArr [example_license_tag, example_microsoft_item,
                                  example_license_tag])])
     = contact_has_ms_license example_licensed_contact
   \<and> contact_syncs_with example_licensed_contact ''Microsoft'' = Inr True
   \<and> contact_has_ms_license example_licensed_contact = Inr True"
  using classification_order_independent
    [of example_licensed_contact
        "JObj [(''id'', JStr ''1''),
               (''included'', JArr [example_license_tag, example_microsoft_item,
                                    example_license_tag])]"
        "''Microsoft''"]
  by (simp add: example_licensed_contact_def example_license_tag_def
        example_microsoft_item_def wf_document_def wf_item_def included_of_def
        contact_syncs_with_def contact_has_ms_license_def bind_err_def insert_commute)

section \<open>The filter engine\<close>

lemma passes_filter_wf:
  assumes "wf_document d"
  shows "contact_passes_filter licensed d = Inr (spec_keeps licensed d)"
  unfolding contact_passes_filter_def syncs_with_wf[OF assms] has_license_wf[OF assms]
  by (auto simp: bind_err_def spec_keeps_def)

lemma filter_loop_wf:
  "list_all wf_fetched fetched \<Longrightarrow>
   get_microsoft_only_contacts_loop licensed fetched acc =
     Inr (acc @ List.map_filter (spec_kept licensed) fetched)"
proof (induction fetched arbitrary: acc)
  case Nil
  then show ?case by (simp add: List.map_filter_simps)
next
  case (Cons f rest)
  obtain cid resp where f: "f = (cid, resp)" by (cases f)
  from Cons.prems have wf: "wf_fetched (cid, resp)" and rest: "list_all wf_fetched rest"
    by (simp_all add: f)
  note IH = Cons.IH[OF rest]
  show ?case
  proof (cases "checked_200 resp")
    case None
    then show ?thesis
      by (simp add: f IH List.map_filter_simps spec_kept_def fetched_document_def)
  next
    case (Some r)
    with wf obtain d where d: "json_body r = Some d" and wfd: "wf_document d"
      by (auto simp: wf_fetched_def wf_response_def split: option.splits)
    show ?thesis
      by (simp add: f Some d IH List.map_filter_simps spec_kept_def fetched_document_def
            resp_json_def bind_err_def passes_filter_wf[OF wfd])
  qed
qed

text \<open>
  Claim C1. For every list of fetched contact details (every response that passed the
  guard carries a well-formed document), \<^verbatim>\<open>get_microsoft_only_contacts\<close> returns, in
  completion order, exactly the contacts whose request succeeded and whose included list
  has an item syncing with "Microsoft", has no item syncing with "Autotask", and has a
  "Microsoft Licenses" tag if and only if \<open>licensed\<close> holds.
\<close>

theorem filter_keeps_microsoft_only:
  assumes "list_all wf_fetched fetched"
  shows "get_microsoft_only_contacts licensed fetched =
           Inr (List.map_filter (spec_kept licensed) fetched)"
  using filter_loop_wf[OF assms, of licensed "[]"]
  by (simp add: get_microsoft_only_contacts_def)

theorem filter_keeps_microsoft_only_witness:
  "get_microsoft_only_contacts True example_fetched
     = Inr [(JStr ''1'', example_licensed_contact)]
   \<and> get_microsoft_only_contacts False example_fetched = Inr []"
  using filter_keeps_microsoft_only [of example_fetched True]
        filter_keeps_microsoft_only [of example_fetched False]
  by (simp add: example_fetched_def example_licensed_contact_def example_license_tag_def
        example_microsoft_item_def example_autotask_sync_item_def
        wf_fetched_def wf_response_def checked_200_def response_ok_def wf_document_def
        wf_item_def List.map_filter_simps spec_kept_def fetched_document_def spec_keeps_def
        included_of_def syncs_item_def adapter_is_def item_attr_def license_item_def
        item_type_def)

section \<open>The executor\<close>

lemma retry_events_Suc:
  "retry_events m u b a (Suc i) = [Requested m u b, Slept (2 ^ a)] @ retry_events m u b (Suc a) i"
  by (simp add: retry_events_def upt_conv_Cons del: upt_Suc)

lemma retry_events_0: "retry_events m u b a 0 = []"
  by (simp add: retry_events_def)

lemma safe_request_loop_exhausted:
  "(\<And>i. i < n \<Longrightarrow> attempt_failed (tr (trace @ retry_events m u b a i) m u b)) \<Longrightarrow>
   safe_request_loop tr m u b n a trace = (None, trace @ retry_events m u b a n)"
proof (induction n arbitrary: a trace)
  case 0
  then show ?case by (simp add: retry_events_0)
next
  case (Suc n)
  from Suc.prems[of 0] have first: "attempt_failed (tr trace m u b)"
    by (simp add: retry_events_0)
  have rest: "attempt_failed (tr ((trace @ [Requested m u b, Slept (2 ^ a)])
                 @ retry_events m u b (Suc a) i) m u b)" if "i < n" for i
    using Suc.prems[of "Suc i"] that by (simp add: retry_events_Suc)
  from Suc.IH[of "trace @ [Requested m u b, Slept (2 ^ a)]" "Suc a", OF rest]
  have IH: "safe_request_loop tr m u b n (Suc a) (trace @ [Requested m u b, Slept (2 ^ a)])
              = (None, trace @ retry_events m u b a (Suc n))"
    by (simp add: retry_events_Suc)
  from first show ?case
    by (cases "tr trace m u b") (simp_all add: attempt_failed_def Let_def IH)
qed

text \<open>
  Claim C4. When every attempt fails, \<^verbatim>\<open>safe_request\<close> makes exactly \<open>max_retries\<close>
  requests, sleeps \<open>2 ^ i\<close> seconds after attempt \<open>i\<close> (the last one included), and
  returns \<^verbatim>\<open>None\<close>; it raises nothing. For the default bound 5 the sleeps are
  1, 2, 4, 8 and 16 seconds.
\<close>

theorem safe_request_exhausts_retries:
  assumes "\<forall>i<nat max_retries.
             attempt_failed (tr (trace @ retry_events method u body 0 i) method u body)"
  shows "safe_request tr method u body max_retries trace
           = (None, trace @ retry_events method u body 0 (nat max_retries))"
  unfolding safe_request_def
  using assms by (intro safe_request_loop_exhausted) simp

theorem safe_request_exhausts_retries_witness:
  "safe_request (\<lambda>trace method u body.
        if length trace < 4 then Raised else Got \<lparr>status_code = 503, json_body = None\<rparr>)
     ''GET'' (OrgsPageUrl 1) None 5 []
   = (None,
      [Requested ''GET'' (OrgsPageUrl 1) None, Slept 1,
       Requested ''GET'' (OrgsPageUrl 1) None, Slept 2,
       Requested ''GET'' (OrgsPageUrl 1) None, Slept 4,
       Requested ''GET'' (OrgsPageUrl 1) None, Slept 8,
       Requested ''GET'' (OrgsPageUrl 1) None, Slept 16])"
  using safe_request_exhausts_retries [of 5
      "\<lambda>trace method u body.
        if length trace < 4 then Raised else Got \<lparr>status_code = 503, json_body = None\<rparr>"
      "[]" "''GET''" "OrgsPageUrl 1" None]
  by (simp add: attempt_failed_def retry_events_def upt_rec numeral_nat)

section \<open>Creating a contact\<close>

lemma truthy_or_empty: "truthy (py_or_empty v) = truthy v"
  by (simp add: py_or_empty_def)

text \<open>
  Claim C5. A candidate whose last name is empty (falsy), or whose email is empty once
  trimmed and lower-cased (the value the function tests: for Python's methods, an email
  that is empty or only whitespace), is not created: \<^verbatim>\<open>create_contact_in_autotask\<close>
  returns false, the cache of the company is the one it was given, and no request is
  sent. This holds for every pair of string methods.
\<close>

theorem create_skips_incomplete_candidate:
  assumes "\<not> truthy (lastName contact_data)
           \<or> str_lower py (str_strip py (email contact_data)) = []"
  shows "create_contact_in_autotask py tr company_id contact_data existing_emails_cache trace
           = (False, existing_emails_cache, trace)"
  using assms
  by (auto simp: create_contact_in_autotask_def Let_def truthy_or_empty)

theorem create_skips_incomplete_candidate_witness:
  "create_contact_in_autotask ascii_methods
      (\<lambda>trace method u body. Got \<lparr>status_code = 200, json_body = None\<rparr>)
      (JStr ''500'')
      \<lparr>firstName = JStr ''Jane'', lastName = JStr [], email = ''jane@x.com'', phone = []\<rparr>
      {''joe@x.com''} []
     = (False, {''joe@x.com''}, [])
   \<and> create_contact_in_autotask ascii_methods
      (\<lambda>trace method u body. Got \<lparr>status_code = 200, json_body = None\<rparr>)
      (JStr ''500'')
      \<lparr>firstName = JStr ''Jane'', lastName = JStr ''Doe'', email = ''  '', phone = []\<rparr>
      {''joe@x.com''} []
     = (False, {''joe@x.com''}, [])"
  using create_skips_incomplete_candidate [of
      "\<lparr>firstName = JStr ''Jane'', lastName = JStr [], email = ''jane@x.com'', phone = []\<rparr>"
      ascii_methods
      "\<lambda>trace method u body. Got \<lparr>status_code = 200, json_body = None\<rparr>"
      "JStr ''500''" "{''joe@x.com''}" "[]"]
    create_skips_incomplete_candidate [of
      "\<lparr>firstName = JStr ''Jane'', lastName = JStr ''Doe'', email = ''  '', phone = []\<rparr>"
      ascii_methods
      "\<lambda>trace method u body. Got \<lparr>status_code = 200, json_body = None\<rparr>"
      "JStr ''500''" "{''joe@x.com''}" "[]"]
  by (simp add: ascii_methods_def ascii_strip_def ascii_space_def ascii_lower_def)

lemma safe_request_loop_Some:
  "safe_request_loop tr m u b n a trace = (Some r, trace') \<Longrightarrow>
   \<exists>t. tr t m u b = Got r \<and> status_code r < 400"
proof (induction n arbitrary: a trace)
  case 0
  then show ?case by simp
next
  case (Suc n)
  show ?case
  proof (cases "tr trace m u b")
    case Raised
    with Suc.prems show ?thesis by (auto simp: Let_def dest: Suc.IH)
  next
    case (Got resp)
    show ?thesis
    proof (cases "status_code resp < 400")
      case True
      with Got Suc.prems show ?thesis by (auto simp: Let_def)
    next
      case False
      with Got Suc.prems show ?thesis by (auto simp: Let_def dest: Suc.IH)
    qed
  qed
qed

lemma safe_request_Some:
  "safe_request tr m u b k trace = (Some r, trace') \<Longrightarrow>
   \<exists>t. tr t m u b = Got r \<and> status_code r < 400"
  unfolding safe_request_def by (rule safe_request_loop_Some)

lemma safe_request_first_success:
  "tr trace m u b = Got r \<Longrightarrow> status_code r < 400 \<Longrightarrow> 0 < k \<Longrightarrow>
   safe_request tr m u b k trace = (Some r, trace @ [Requested m u b])"
proof -
  assume a: "tr trace m u b = Got r" "status_code r < 400" "0 < k"
  then obtain n where "nat k = Suc n" by (cases "nat k") auto
  with a show ?thesis by (simp add: safe_request_def Let_def)
qed

text \<open>
  Claim C10. Only status 200 counts as a creation. If the Ticketing Service never
  answers a POST to the company's contacts with status 200, then whatever it answers
  (a 201 included, which the executor returns as a success because it is below 400)
  \<^verbatim>\<open>create_contact_in_autotask\<close> returns false and leaves the cache as it was, for
  every pair of string methods.
\<close>

theorem create_requires_status_200:
  assumes "\<forall>t body r. tr t ''POST'' (CompanyContactsUrl company_id) body = Got r
             \<longrightarrow> status_code r \<noteq> 200"
  shows "fst (create_contact_in_autotask py tr company_id contact_data existing_emails_cache trace)
           = False
       \<and> fst (snd (create_contact_in_autotask py tr company_id contact_data
                      existing_emails_cache trace)) = existing_emails_cache
       \<and> (\<forall>body r. tr trace ''POST'' (CompanyContactsUrl company_id) body = Got r
                    \<and> status_code r < 400
             \<longrightarrow> safe_request tr ''POST'' (CompanyContactsUrl company_id) body 5 trace
                   = (Some r, trace @ [Requested ''POST'' (CompanyContactsUrl company_id) body]))"
proof -
  have no200: "status_code r \<noteq> 200"
    if "safe_request tr ''POST'' (CompanyContactsUrl company_id) body 5 trace = (Some r, trace')"
    for body r trace'
    using safe_request_Some[OF that] assms by blast
  have created: "fst (create_contact_in_autotask py tr company_id contact_data
                        existing_emails_cache trace) = False
       \<and> fst (snd (create_contact_in_autotask py tr company_id contact_data
                      existing_emails_cache trace)) = existing_emails_cache"
    unfolding create_contact_in_autotask_def Let_def
    by (auto split: prod.splits option.splits dest: no200)
  have executor: "safe_request tr ''POST'' (CompanyContactsUrl company_id) body 5 trace
                   = (Some r, trace @ [Requested ''POST'' (CompanyContactsUrl company_id) body])"
    if "tr trace ''POST'' (CompanyContactsUrl company_id) body = Got r" "status_code r < 400"
    for body r
    using that by (simp add: safe_request_first_success)
  from created executor show ?thesis by blast
qed

theorem create_requires_status_200_witness:
  "safe_request (\<lambda>trace method u body. Got \<lparr>status_code = 201, json_body = None\<rparr>)
      ''POST'' (CompanyContactsUrl (JStr ''500''))
      (Some (JObj [(''IsActive'', JNum 1), (''FirstName'', JStr ''Jane''),
                   (''LastName'', JStr ''Doe''), (''EmailAddress'', JStr ''jane@x.com''),
                   (''Phone'', JStr '''')])) 5 []
     = (Some \<lparr>status_code = 201, json_body = None\<rparr>,
        [Requested ''POST'' (CompanyContactsUrl (JStr ''500''))
           (Some (JObj [(''IsActive'', JNum 1), (''FirstName'', JStr ''Jane''),
                   (''LastName'', JStr ''Doe''), (''EmailAddress'', JStr ''jane@x.com''),
                   (''Phone'', JStr '''')]))])
   \<and> fst (create_contact_in_autotask ascii_methods
        (\<lambda>trace method u body. Got \<lparr>status_code = 201, json_body = None\<rparr>)
        (JStr ''500'')
        \<lparr>firstName = JStr ''Jane'', lastName = JStr ''Doe'', email = ''jane@x.com'', phone = ''''\<rparr>
        {} []) = False
   \<and> fst (snd (create_contact_in_autotask ascii_methods
        (\<lambda>trace method u body. Got \<lparr>status_code = 201, json_body = None\<rparr>)
        (JStr ''500'')
        \<lparr>firstName = JStr ''Jane'', lastName = JStr ''Doe'', email = ''jane@x.com'', phone = ''''\<rparr>
        {} [])) = {}"
  using create_requires_status_200 [of
      "\<lambda>trace method u body. Got \<lparr>status_code = 201, json_body = None\<rparr>"
      "JStr ''500''"
      ascii_methods
      "\<lparr>firstName = JStr ''Jane'', lastName = JStr ''Doe'', email = ''jane@x.com'', phone = ''''\<rparr>"
      "{}" "[]"]
  by (simp add: safe_request_def numeral_nat Let_def ascii_methods_def ascii_strip_def
        ascii_space_def ascii_lower_def ascii_lower_char_def)

section \<open>The destination company and the scanner's test\<close>

lemma remote_id_step:
  assumes "wf_item item"
  shows "get_autotask_remote_id_loop (item # rest) =
           (if adapter_is ''Autotask'' item then Inr (item_attr item ''remote-id'')
            else get_autotask_remote_id_loop rest)"
  using assms
  by (cases item rule: wf_item_cases)
     (simp_all add: bind_err_def adapter_is_def item_attr_def split: option.splits)

lemma remote_id_first:
  assumes "list_all wf_item pre" and "list_all (\<lambda>i. \<not> adapter_is ''Autotask'' i) pre"
      and "wf_item item" and "adapter_is ''Autotask'' item"
  shows "get_autotask_remote_id_loop (pre @ item # post) = Inr (item_attr item ''remote-id'')"
  using assms
proof (induction pre)
  case Nil
  then show ?case by (simp add: remote_id_step del: get_autotask_remote_id_loop.simps(2))
next
  case (Cons p pre)
  then show ?case by (simp add: remote_id_step del: get_autotask_remote_id_loop.simps(2))
qed

lemma remote_id_none:
  assumes "list_all wf_item items" and "list_all (\<lambda>i. \<not> adapter_is ''Autotask'' i) items"
  shows "get_autotask_remote_id_loop items = Inr JNull"
  using assms
  by (induction items) (simp_all add: remote_id_step del: get_autotask_remote_id_loop.simps(2))

lemma org_syncing_step:
  assumes "wf_item item"
  shows "org_syncing_loop (item # rest) =
           (if active_item item then Inr True else org_syncing_loop rest)"
  using assms
  by (cases item rule: wf_item_cases)
     (simp_all add: bind_err_def active_item_def adapter_is_def item_attr_def
               split: option.splits)

lemma org_syncing_wf:
  "list_all wf_item xs \<Longrightarrow> org_syncing_loop xs = Inr (\<exists>item\<in>set xs. active_item item)"
  by (induction xs) (simp_all add: org_syncing_step del: org_syncing_loop.simps(2))

text \<open>
  Claim C9. The company that receives an organization's contacts is the "remote-id" of
  the first included item whose adapter name is "Autotask", whatever that item's "sync"
  and "orphaned" flags are (they are not read); the organization is processed when it is
  not excluded and that remote id is truthy. Without any Autotask item the function
  returns \<^verbatim>\<open>None\<close> and \<^verbatim>\<open>main\<close> skips the organization. In particular there is an included
  list that the scanner classifies as actively syncing, because of one relationship,
  while the destination is the remote id of another relationship, orphaned and not
  syncing.
\<close>

theorem destination_is_first_autotask_item:
  "(list_all wf_item pre \<and> list_all (\<lambda>i. \<not> adapter_is ''Autotask'' i) pre
      \<and> wf_item item \<and> adapter_is ''Autotask'' item
    \<longrightarrow> get_autotask_remote_id_from_included (JArr (pre @ item # post))
          = Inr (item_attr item ''remote-id'')
        \<and> (org_id \<notin> set (map JStr exclude_ids)
           \<longrightarrow> main_destination exclude_ids (org_id, name, JArr (pre @ item # post))
                 = Inr (if truthy (item_attr item ''remote-id'')
                        then Some (item_attr item ''remote-id'') else None)))
   \<and> (list_all wf_item items \<and> list_all (\<lambda>i. \<not> adapter_is ''Autotask'' i) items
      \<longrightarrow> get_autotask_remote_id_from_included (JArr items) = Inr JNull
          \<and> main_destination exclude_ids (org_id, name, JArr items) = Inr None)
   \<and> (\<exists>stale live.
         active_item live
         \<and> truthy (item_attr stale ''orphaned'') \<and> \<not> truthy (item_attr stale ''sync'')
         \<and> item_attr stale ''remote-id'' \<noteq> item_attr live ''remote-id''
         \<and> org_syncing_loop [stale, live] = Inr True
         \<and> main_destination [] (org_id, name, JArr [stale, live])
             = Inr (Some (item_attr stale ''remote-id'')))"
proof (intro conjI impI)
  assume a: "list_all wf_item pre \<and> list_all (\<lambda>i. \<not> adapter_is ''Autotask'' i) pre
      \<and> wf_item item \<and> adapter_is ''Autotask'' item"
  then show first: "get_autotask_remote_id_from_included (JArr (pre @ item # post))
          = Inr (item_attr item ''remote-id'')"
    by (simp add: get_autotask_remote_id_from_included_def bind_err_def remote_id_first)
  assume "org_id \<notin> set (map JStr exclude_ids)"
  then show "main_destination exclude_ids (org_id, name, JArr (pre @ item # post))
                 = Inr (if truthy (item_attr item ''remote-id'')
                        then Some (item_attr item ''remote-id'') else None)"
    using first by (simp add: main_destination_def bind_err_def)
next
  assume a: "list_all wf_item items \<and> list_all (\<lambda>i. \<not> adapter_is ''Autotask'' i) items"
  then show none: "get_autotask_remote_id_from_included (JArr items) = Inr JNull"
    by (simp add: get_autotask_remote_id_from_included_def bind_err_def remote_id_none)
  show "main_destination exclude_ids (org_id, name, JArr items) = Inr None"
    using none by (simp add: main_destination_def bind_err_def)
next
  have "active_item example_live_autotask_item
         \<and> truthy (item_attr example_stale_autotask_item ''orphaned'')
         \<and> \<not> truthy (item_attr example_stale_autotask_item ''sync'')
         \<and> item_attr example_stale_autotask_item ''remote-id''
             \<noteq> item_attr example_live_autotask_item ''remote-id''
         \<and> org_syncing_loop [example_stale_autotask_item, example_live_autotask_item] = Inr True
         \<and> main_destination [] (org_id, name,
               JArr [example_stale_autotask_item, example_live_autotask_item])
             = Inr (Some (item_attr example_stale_autotask_item ''remote-id''))"
    by (simp add: example_live_autotask_item_def example_stale_autotask_item_def
          active_item_def adapter_is_def item_attr_def bind_err_def main_destination_def
          get_autotask_remote_id_from_included_def)
  then show "\<exists>stale live.
         active_item live
         \<and> truthy (item_attr stale ''orphaned'') \<and> \<not> truthy (item_attr stale ''sync'')
         \<and> item_attr stale ''remote-id'' \<noteq> item_attr live ''remote-id''
         \<and> org_syncing_loop [stale, live] = Inr True
         \<and> main_destination [] (org_id, name, JArr [stale, live])
             = Inr (Some (item_attr stale ''remote-id''))"
    by blast
qed

theorem destination_is_first_autotask_item_witness:
  "get_autotask_remote_id_from_included
      (JArr [example_microsoft_item, example_stale_autotask_item, example_live_autotask_item])
     = Inr (JStr ''111'')
   \<and> main_destination [''9''] (JStr ''7'', JStr ''Acme'',
        JArr [example_microsoft_item, example_stale_autotask_item, example_live_autotask_item])
     = Inr (Some (JStr ''111''))
   \<and> org_syncing_loop
        [example_microsoft_item, example_stale_autotask_item, example_live_autotask_item]
     = Inr True
   \<and> get_autotask_remote_id_from_included (JArr [example_microsoft_item]) = Inr JNull
   \<and> main_destination [''9''] (JStr ''7'', JStr ''Acme'', JArr [example_microsoft_item])
     = Inr None"
  using destination_is_first_autotask_item [of "[example_microsoft_item]"
      example_stale_autotask_item "[example_live_autotask_item]" "JStr ''7''" "[''9'']"
      "JStr ''Acme''" "[example_microsoft_item]"]
  by (simp add: example_microsoft_item_def example_stale_autotask_item_def
        example_live_autotask_item_def wf_item_def adapter_is_def item_attr_def bind_err_def)

section \<open>The pagination walker\<close>

lemma ids_of_items:
  "map (\<lambda>item. member_of item ''id'') items = map Some ids \<Longrightarrow>
   those_err (map (\<lambda>item. py_index item ''id'') items) = Inr ids"
proof (induction items arbitrary: ids)
  case Nil
  then show ?case by simp
next
  case (Cons item items)
  then obtain i rest where ids: "ids = i # rest"
      and item: "member_of item ''id'' = Some i"
      and more: "map (\<lambda>item. member_of item ''id'') items = map Some rest"
    by (cases ids) auto
  from item obtain kvs where "item = JObj kvs" and "map_of kvs ''id'' = Some i"
    by (cases item) auto
  then show ?case
    by (simp add: ids bind_err_def Cons.IH[OF more])
qed

lemma contact_ids_page_of:
  assumes "json_body r = Some doc" and "page_of doc ids next_url"
  shows "contact_ids_page r = Inr (ids, next_url)"
proof -
  from assms(2) obtain kvs where doc: "doc = JObj kvs"
    by (cases doc) (simp_all add: page_of_def)
  have listed: "bind_err (py_get doc ''data'' (JArr [])) (\<lambda>listed.
                  bind_err (py_iter listed) (\<lambda>items.
                    those_err (map (\<lambda>item. py_index item ''id'') items))) = Inr ids"
  proof (cases "map_of kvs ''data''")
    case None
    with assms(2) show ?thesis by (simp add: doc page_of_def bind_err_def)
  next
    case (Some listed)
    with assms(2) obtain items where "listed = JArr items"
        and "map (\<lambda>item. member_of item ''id'') items = map Some ids"
      by (cases listed) (simp_all add: doc page_of_def)
    with Some show ?thesis by (simp add: doc bind_err_def ids_of_items)
  qed
  have link: "bind_err (py_get doc ''links'' (JObj [])) (\<lambda>links. py_get links ''next'' JNull)
                = Inr next_url"
  proof (cases "map_of kvs ''links''")
    case None
    with assms(2) show ?thesis by (simp add: doc page_of_def bind_err_def)
  next
    case (Some links)
    with assms(2) obtain lvs where "links = JObj lvs"
        and "next_url = (case map_of lvs ''next'' of None \<Rightarrow> JNull | Some v \<Rightarrow> v)"
      by (cases links) (simp_all add: doc page_of_def)
    with Some show ?thesis by (simp add: doc bind_err_def)
  qed
  from listed obtain listed_v items where
      l1: "py_get doc ''data'' (JArr []) = Inr listed_v"
      and l2: "py_iter listed_v = Inr items"
      and l3: "those_err (map (\<lambda>item. py_index item ''id'') items) = Inr ids"
    by (auto simp: bind_err_def split: sum.splits)
  from link obtain links where
      k1: "py_get doc ''links'' (JObj []) = Inr links"
      and k2: "py_get links ''next'' JNull = Inr next_url"
    by (auto simp: bind_err_def split: sum.splits)
  show ?thesis
    by (simp add: contact_ids_page_def resp_json_def assms(1) bind_err_def l1 l2 l3 k1 k2)
qed

lemma fetched_page_checked:
  assumes "fetched_page resp ids next_url"
  obtains r where "checked_200 resp = Some r" and "contact_ids_page r = Inr (ids, next_url)"
proof -
  from assms obtain r doc where resp: "resp = Some r" and ok: "status_code r = 200"
      and body: "json_body r = Some doc" and page: "page_of doc ids next_url"
    by (auto simp: fetched_page_def split: option.splits)
  have "checked_200 resp = Some r"
    by (simp add: resp ok checked_200_def response_ok_def)
  with contact_ids_page_of[OF body page] that show thesis by blast
qed

lemma fetch_fails_checked: "fetch_fails resp \<Longrightarrow> checked_200 resp = None"
  by (auto simp: fetch_fails_def checked_200_def split: option.splits)

lemma is_link_truthy: "is_link v \<Longrightarrow> url_truthy (LinkUrl v)"
  by (cases v) (simp_all add: is_link_def)

lemma walk_loop_serves:
  "walk_serves tr u trace pages then_fails \<Longrightarrow> url_truthy u \<Longrightarrow>
   \<exists>trace'. get_all_contact_ids_loop tr u contact_ids trace
              = Some (Inr (contact_ids @ concat (map fst pages), trace'))"
proof (induction pages arbitrary: u trace contact_ids)
  case Nil
  then have "checked_200 (fst (safe_request tr ''GET'' u None 5 trace)) = None"
    by (simp add: fetch_fails_checked)
  with Nil.prems(2) show ?case
    by (subst get_all_contact_ids_loop.simps) (auto split: prod.splits)
next
  case (Cons page pages)
  obtain ids next_url where page: "page = (ids, next_url)" by (cases page)
  obtain resp trace1 where req: "safe_request tr ''GET'' u None 5 trace = (resp, trace1)"
    by (cases "safe_request tr ''GET'' u None 5 trace")
  from Cons.prems(1) have fetched: "fetched_page resp ids next_url"
      and after: "if pages = [] \<and> \<not> then_fails then next_url = JNull
                  else is_link next_url
                       \<and> walk_serves tr (LinkUrl next_url) trace1 pages then_fails"
    by (simp_all add: page req)
  from fetched obtain r where ok: "checked_200 resp = Some r"
      and doc: "contact_ids_page r = Inr (ids, next_url)"
    by (rule fetched_page_checked)
  have step: "get_all_contact_ids_loop tr u contact_ids trace
                = get_all_contact_ids_loop tr (LinkUrl next_url) (contact_ids @ ids) trace1"
    by (subst get_all_contact_ids_loop.simps) (simp add: Cons.prems(2) req ok doc)
  show ?case
  proof (cases "pages = [] \<and> \<not> then_fails")
    case True
    with after have "next_url = JNull" by simp
    then have "get_all_contact_ids_loop tr (LinkUrl next_url) (contact_ids @ ids) trace1
                 = Some (Inr (contact_ids @ ids, trace1))"
      by (subst get_all_contact_ids_loop.simps) simp
    with True show ?thesis by (simp add: step page)
  next
    case False
    with after have link: "is_link next_url"
        and rest: "walk_serves tr (LinkUrl next_url) trace1 pages then_fails"
      by simp_all
    from Cons.IH[OF rest is_link_truthy[OF link], of "contact_ids @ ids"] obtain trace' where
      "get_all_contact_ids_loop tr (LinkUrl next_url) (contact_ids @ ids) trace1
         = Some (Inr ((contact_ids @ ids) @ concat (map fst pages), trace'))"
      by blast
    then show ?thesis by (simp add: step page)
  qed
qed

text \<open>
  Claim C3. If the fetches along the walk deliver the pages \<open>pages\<close> in turn, each from
  the link of the page before it, and then either the last page has no next link or
  the fetch of the page after it fails, then \<^verbatim>\<open>get_all_contact_ids\<close> returns (it neither
  raises nor runs on) the concatenation of the ids that the page documents list, in
  page and response order, nothing dropped, merged or reordered. With a failing fetch
  of page \<open>k\<close> this is the concatenation of pages 1 to \<open>k - 1\<close>.
\<close>

theorem walker_concatenates_pages:
  assumes "walk_serves tr (OrgContactsUrl org_id) trace pages then_fails"
  shows "\<exists>trace'. get_all_contact_ids tr org_id trace
                   = Some (Inr (concat (map fst pages), trace'))"
  using walk_loop_serves[OF assms, of "[]"]
  by (simp add: get_all_contact_ids_def)

theorem walker_concatenates_pages_witness:
  "(\<exists>trace'. get_all_contact_ids example_directory (JStr ''8'') []
       = Some (Inr ([JStr ''d'', JStr ''e'', JStr ''d''], trace')))
   \<and> (\<exists>trace'. get_all_contact_ids example_directory (JStr ''7'') []
       = Some (Inr ([JStr ''a'', JStr ''b'', JStr ''c''], trace')))
   \<and> (\<exists>trace'. get_all_contact_ids example_directory (JStr ''9'') []
       = Some (Inr ([JStr ''f''], trace')))"
  using walker_concatenates_pages [of example_directory "JStr ''8''" "[]"
          "[([JStr ''d''], JStr ''page9''), ([JStr ''e'', JStr ''d''], JNull)]" False]
        walker_concatenates_pages [of example_directory "JStr ''7''" "[]"
          "[([JStr ''a'', JStr ''b''], JStr ''page2''), ([JStr ''c''], JStr ''page3'')]" True]
        walker_concatenates_pages [of example_directory "JStr ''9''" "[]"
          "[([JStr ''f''], JStr ''moved'')]" True]
  by (simp add: example_directory_def example_page_def safe_request_def numeral_nat Let_def
        fetched_page_def page_of_def fetch_fails_def is_link_def)

section \<open>The organization scanner\<close>

lemma check_org_wf:
  assumes entry: "org_entry org = Some (org_id, org_name)"
      and req: "safe_request tr ''GET'' (OrgDetailUrl org_id) None 5 trace = (resp, trace1)"
      and wf: "wf_response resp"
  shows "check_org tr org trace = Inr (spec_syncing_triple (org, resp), trace1)"
proof -
  from entry obtain org_attributes where
      id: "py_index org ''id'' = Inr org_id"
      and attrs: "py_index org ''attributes'' = Inr org_attributes"
      and name: "py_index org_attributes ''name'' = Inr org_name"
    by (auto simp: org_entry_def bind_err_def split: sum.splits)
  show ?thesis
  proof (cases "checked_200 resp")
    case None
    then show ?thesis
      by (simp add: check_org_def bind_err_def id attrs name req spec_syncing_triple_def
            entry fetched_document_def)
  next
    case (Some r)
    with wf obtain d where d: "json_body r = Some d" and wfd: "wf_document d"
      by (auto simp: wf_response_def split: option.splits)
    have inc: "bind_err (py_get d ''included'' (JArr [])) py_iter = Inr (included_of d)"
      and items: "list_all wf_item (included_of d)"
      using wf_document_included[OF wfd] by simp_all
    from wfd have raw: "py_get d ''included'' (JArr []) = Inr (JArr (included_of d))"
      by (cases d)
         (auto simp: wf_document_def included_of_def split: option.splits json.splits)
    show ?thesis
      by (simp add: check_org_def bind_err_def id attrs name req Some d resp_json_def raw
            org_syncing_wf[OF items] spec_syncing_triple_def entry fetched_document_def)
  qed
qed

lemma check_orgs_wf:
  "list_all (\<lambda>org. org_entry org \<noteq> None) orgs \<Longrightarrow>
   list_all wf_response (detail_fetches tr orgs trace) \<Longrightarrow>
   \<exists>trace'. check_orgs tr orgs autotask_orgs trace
     = Inr (autotask_orgs
              @ List.map_filter spec_syncing_triple (zip orgs (detail_fetches tr orgs trace)),
            trace')"
proof (induction orgs arbitrary: autotask_orgs trace)
  case Nil
  then show ?case by (simp add: List.map_filter_simps)
next
  case (Cons org rest)
  from Cons.prems(1) obtain org_id org_name where
      entry: "org_entry org = Some (org_id, org_name)"
      and rest: "list_all (\<lambda>org. org_entry org \<noteq> None) rest"
    by auto
  obtain resp trace1 where
    req: "safe_request tr ''GET'' (OrgDetailUrl org_id) None 5 trace = (resp, trace1)"
    by (cases "safe_request tr ''GET'' (OrgDetailUrl org_id) None 5 trace")
  have fetches: "detail_fetches tr (org # rest) trace = resp # detail_fetches tr rest trace1"
    by (simp add: entry req)
  with Cons.prems(2) have wf: "wf_response resp"
      and wfs: "list_all wf_response (detail_fetches tr rest trace1)"
    by simp_all
  note body = check_org_wf[OF entry req wf]
  from Cons.IH[OF rest wfs,
      of "case spec_syncing_triple (org, resp) of
            None \<Rightarrow> autotask_orgs | Some triple \<Rightarrow> autotask_orgs @ [triple]"]
  obtain trace' where
    "check_orgs tr rest
       (case spec_syncing_triple (org, resp) of
          None \<Rightarrow> autotask_orgs | Some triple \<Rightarrow> autotask_orgs @ [triple]) trace1
     = Inr ((case spec_syncing_triple (org, resp) of
              None \<Rightarrow> autotask_orgs | Some triple \<Rightarrow> autotask_orgs @ [triple])
            @ List.map_filter spec_syncing_triple (zip rest (detail_fetches tr rest trace1)),
            trace')"
    by blast
  then show ?case
    by (cases "spec_syncing_triple (org, resp)")
       (simp_all add: body bind_err_def fetches List.map_filter_simps
                  del: detail_fetches.simps(2))
qed

text \<open>
  Claim C2. Let the first pass return the organizations \<open>all_orgs\<close>, each with an id
  and a name, and let every detail response that passes the guard carry a well-formed
  document. Then \<^verbatim>\<open>get_autotask_syncing_orgs\<close> returns, in list order, one triple for
  exactly those organizations whose detail fetch passed the guard and whose included
  list has an item with adapter name "Autotask", a truthy "sync" and a falsy
  "orphaned"; the triple is the organization's id, its name, and the included list.
\<close>

theorem scanner_returns_active_orgs:
  assumes "fetch_orgs_loop tr 1 [] trace = Some (Inr (all_orgs, trace1))"
      and "list_all (\<lambda>org. org_entry org \<noteq> None) all_orgs"
      and "list_all wf_response (detail_fetches tr all_orgs trace1)"
  shows "\<exists>trace'. get_autotask_syncing_orgs tr trace
           = Some (Inr (List.map_filter spec_syncing_triple
                          (zip all_orgs (detail_fetches tr all_orgs trace1)),
                        trace'))"
  using check_orgs_wf[OF assms(2,3), of "[]"]
  by (simp add: get_autotask_syncing_orgs_def assms(1))

theorem scanner_returns_active_orgs_witness:
  "\<exists>trace'. get_autotask_syncing_orgs example_orgs_service []
     = Some (Inr ([(JStr ''1'', JStr ''Acme'',
                    JArr [example_microsoft_item, example_live_autotask_item])], trace'))"
  using scanner_returns_active_orgs [of example_orgs_service "[]"
      "[example_org ''1'' ''Acme'', example_org ''2'' ''Beta'', example_org ''3'' ''Gamma'']"
      "[Requested ''GET'' (OrgsPageUrl 1) None, Requested ''GET'' (OrgsPageUrl 2) None]"]
  by (simp add: fetch_orgs_loop.simps example_orgs_service_def example_org_def
        safe_request_def numeral_nat Let_def checked_200_def response_ok_def orgs_page_def
        resp_json_def bind_err_def org_entry_def wf_response_def wf_document_def wf_item_def
        example_microsoft_item_def example_live_autotask_item_def
        example_stale_autotask_item_def List.map_filter_simps spec_syncing_triple_def
        fetched_document_def included_of_def active_item_def adapter_is_def item_attr_def)

section \<open>Running the creation loop twice\<close>











section \<open>The field extractor and the duplicate check\<close>

lemma wf_entry_get:
  assumes "wf_entry e"
  shows "py_get e ''value'' JNull = Inr (field_of e ''value'')"
  using assms by (cases e) (simp_all add: wf_entry_def field_of_def)

lemma text_or_none_strip:
  assumes "text_or_none v"
  shows "truthy v = (text_of v \<noteq> [])"
    and "truthy v \<Longrightarrow> py_strip_of py v = Inr (str_strip py (text_of v))"
  using assms by (cases v; simp add: text_or_none_def text_of_def)+

lemma entries_loop:
  "list_all wf_entry es \<Longrightarrow>
   add_entry_values py es acc
     = Inr (acc \<union> set (map (str_strip py)
              (filter (\<lambda>v. v \<noteq> []) (map (\<lambda>e. text_of (field_of e ''value'')) es))))"
proof (induction es arbitrary: acc)
  case Nil
  then show ?case by simp
next
  case (Cons e es)
  then have e: "wf_entry e" and rest: "list_all wf_entry es" by simp_all
  from e have t: "text_or_none (field_of e ''value'')" by (simp add: wf_entry_def)
  show ?case
    by (simp add: wf_entry_get[OF e] bind_err_def text_or_none_strip[OF t] Cons.IH[OF rest])
qed

lemma obj_get:
  assumes "is_obj attrs"
  shows "py_get attrs k JNull = Inr (field_of attrs k)"
  using assms by (cases attrs) (simp_all add: field_of_def)

lemma email_fields_loop:
  "is_obj attrs \<Longrightarrow> list_all (\<lambda>k. text_or_none (field_of attrs k)) ks \<Longrightarrow>
   add_email_fields py attrs ks acc
     = Inr (acc \<union> set (map (str_strip py)
              (filter (\<lambda>v. v \<noteq> []) (map (\<lambda>k. text_of (field_of attrs k)) ks))))"
proof (induction ks arbitrary: acc)
  case Nil
  then show ?case by simp
next
  case (Cons k ks)
  then have t: "text_or_none (field_of attrs k)"
      and rest: "list_all (\<lambda>k. text_or_none (field_of attrs k)) ks"
    by simp_all
  show ?case
    by (simp add: obj_get[OF Cons.prems(1)] bind_err_def text_or_none_strip[OF t]
          Cons.IH[OF Cons.prems(1) rest])
qed

lemma phone_fields_loop:
  "is_obj attrs \<Longrightarrow> list_all (\<lambda>k. text_or_none (field_of attrs k)) ks \<Longrightarrow>
   \<exists>phones'. add_phone_fields py attrs ks phones = Inr phones'"
proof (induction ks arbitrary: phones)
  case Nil
  then show ?case by simp
next
  case (Cons k ks)
  then have t: "text_or_none (field_of attrs k)"
      and rest: "list_all (\<lambda>k. text_or_none (field_of attrs k)) ks"
    by simp_all
  show ?case
    using Cons.IH[OF Cons.prems(1) rest]
    by (simp add: obj_get[OF Cons.prems(1)] bind_err_def text_or_none_strip[OF t])
qed


lemma method_step:
  assumes "wf_method_item item"
  shows "\<exists>phones'. add_contact_methods py (item # rest) emails phones
           = add_contact_methods py rest
               (if email_method py item \<and> text_of (item_attr item ''value'') \<noteq> []
                then insert (str_strip py (text_of (item_attr item ''value''))) emails
                else emails)
               phones'"
proof -
  from assms have wf: "wf_item item" by (simp add: wf_method_item_def)
  then obtain kvs where item: "item = JObj kvs"
    by (cases item) (simp_all add: wf_item_def)
  have ty: "py_get item ''type'' JNull = Inr (item_type item)"
    by (simp add: item item_type_def split: option.splits)
  show ?thesis
  proof (cases "is_method item")
    case False
    then show ?thesis
      by (auto simp: ty bind_err_def is_method_def email_method_def)
  next
    case True
    define A where "A = (case map_of kvs ''attributes'' of None \<Rightarrow> JObj [] | Some a \<Rightarrow> a)"
    from wf obtain avs where A: "A = JObj avs"
      by (cases "map_of kvs ''attributes''"; cases A)
         (auto simp: wf_item_def item A_def split: option.splits)
    have at: "py_get item ''attributes'' (JObj []) = Inr A"
      by (simp add: item A_def)
    have attr: "item_attr item k = (case map_of avs k of None \<Rightarrow> JNull | Some v \<Rightarrow> v)" for k
      using A by (auto simp: item_attr_def item A_def split: option.splits)
    from assms True have lab: "case map_of avs ''label'' of None \<Rightarrow> True | Some l \<Rightarrow> is_str l"
      using A by (auto simp: wf_method_item_def item A_def split: option.splits)
    have lb: "bind_err (py_get A ''label'' (JStr [])) (py_lower_of py)
                = Inr (str_lower py (text_of (item_attr item ''label'')))"
    proof (cases "map_of avs ''label''")
      case None
      then show ?thesis by (simp add: A bind_err_def attr text_of_def)
    next
      case (Some l)
      with lab obtain s where "l = JStr s" by (cases l) simp_all
      with Some show ?thesis by (simp add: A bind_err_def attr text_of_def)
    qed
    from assms True have tv: "text_or_none (item_attr item ''value'')"
      by (simp add: wf_method_item_def)
    define V where "V = (case map_of avs ''value'' of None \<Rightarrow> JStr [] | Some v \<Rightarrow> v)"
    have vl: "py_get A ''value'' (JStr []) = Inr V"
      by (simp add: A V_def)
    have vt: "truthy V = (text_of (item_attr item ''value'') \<noteq> [])"
      using tv by (cases "map_of avs ''value''")
        (auto simp: V_def attr text_of_def text_or_none_def split: json.splits)
    have vs: "truthy V \<Longrightarrow>
              py_strip_of py V = Inr (str_strip py (text_of (item_attr item ''value'')))"
      using tv by (cases "map_of avs ''value''")
        (auto simp: V_def attr text_of_def text_or_none_def split: json.splits)
    from lb obtain raw_label where
        l1: "py_get A ''label'' (JStr []) = Inr raw_label"
        and l2: "py_lower_of py raw_label
                   = Inr (str_lower py (text_of (item_attr item ''label'')))"
      by (auto simp: bind_err_def split: sum.splits)
    from True have is_m: "item_type item = JStr ''contact_methods''"
      by (simp add: is_method_def)
    show ?thesis
    proof (cases "truthy V")
      case False
      then show ?thesis
        using vt by (auto simp: ty is_m at l1 l2 vl bind_err_def)
    next
      case tr: True
      then show ?thesis
        using vt vs[OF tr]
        by (auto simp: ty is_m at l1 l2 vl bind_err_def email_method_def True)
    qed
  qed
qed

lemma methods_loop:
  "list_all wf_method_item items \<Longrightarrow>
   \<exists>phones'. add_contact_methods py items emails phones
     = Inr (emails \<union> set (map (str_strip py) (filter (\<lambda>v. v \<noteq> [])
              (map (\<lambda>item. text_of (item_attr item ''value''))
                 (filter (email_method py) items)))),
            phones')"
proof (induction items arbitrary: emails phones)
  case Nil
  then show ?case by simp
next
  case (Cons item items)
  then have here: "wf_method_item item" and rest: "list_all wf_method_item items"
    by simp_all
  from method_step[OF here, of py items emails phones] obtain phones1 where
    step: "add_contact_methods py (item # items) emails phones
             = add_contact_methods py items
                 (if email_method py item \<and> text_of (item_attr item ''value'') \<noteq> []
                  then insert (str_strip py (text_of (item_attr item ''value''))) emails
                  else emails)
                 phones1"
    by blast
  from Cons.IH[OF rest,
      of "if email_method py item \<and> text_of (item_attr item ''value'') \<noteq> []
          then insert (str_strip py (text_of (item_attr item ''value''))) emails
          else emails" phones1]
  obtain phones' where
    "add_contact_methods py items
       (if email_method py item \<and> text_of (item_attr item ''value'') \<noteq> []
        then insert (str_strip py (text_of (item_attr item ''value''))) emails
        else emails) phones1
     = Inr ((if email_method py item \<and> text_of (item_attr item ''value'') \<noteq> []
             then insert (str_strip py (text_of (item_attr item ''value''))) emails
             else emails)
            \<union> set (map (str_strip py) (filter (\<lambda>v. v \<noteq> [])
                (map (\<lambda>item. text_of (item_attr item ''value''))
                   (filter (email_method py) items)))),
            phones')"
    by blast
  then show ?case
    unfolding step by (auto simp del: add_contact_methods.simps)
qed


lemma wf_entries_iter:
  assumes "is_obj attrs" and "wf_entries attrs k"
  shows "\<exists>listed. py_get attrs k (JArr []) = Inr listed
                  \<and> py_iter listed = Inr (entries_of attrs k)"
    and "list_all wf_entry (entries_of attrs k)"
proof -
  from assms(1) obtain avs where attrs: "attrs = JObj avs" by (cases attrs) simp_all
  show "\<exists>listed. py_get attrs k (JArr []) = Inr listed
                  \<and> py_iter listed = Inr (entries_of attrs k)"
    using assms(2)
    by (auto simp: attrs wf_entries_def entries_of_def split: option.splits json.splits)
  show "list_all wf_entry (entries_of attrs k)"
    using assms(2)
    by (auto simp: attrs wf_entries_def entries_of_def split: option.splits json.splits)
qed

lemma extract_wf:
  assumes wf: "wf_contact_document d"
  shows "\<exists>phones. extract_emails_and_phones py d = Inr (spec_emails py d, phones)"
proof -
  from wf obtain kvs where d: "d = JObj kvs"
    by (cases d) (simp_all add: wf_contact_document_def)
  define attrs where "attrs = attributes_of d"
  have "\<exists>data. py_get d ''data'' (JObj []) = Inr data
               \<and> py_get data ''attributes'' (JObj []) = Inr attrs \<and> is_obj attrs"
  proof (cases "map_of kvs ''data''")
    case None
    then show ?thesis by (simp add: d attrs_def attributes_of_def)
  next
    case (Some x)
    with wf obtain xvs where x: "x = JObj xvs"
      by (cases x) (simp_all add: d wf_contact_document_def)
    from wf Some x show ?thesis
      by (cases "map_of xvs ''attributes''")
         (auto simp: d attrs_def attributes_of_def wf_contact_document_def)
  qed
  then obtain data where g1: "py_get d ''data'' (JObj []) = Inr data"
      and g2: "py_get data ''attributes'' (JObj []) = Inr attrs"
      and obj: "is_obj attrs"
    by blast
  from wf have we: "wf_entries attrs ''contact-emails''"
      and wp: "wf_entries attrs ''contact-phones''"
      and wflat: "list_all (\<lambda>k. text_or_none (field_of attrs k))
           [''emailAddress'', ''emailAddress2'', ''emailAddress3'', ''phone'',
            ''mobilePhone'', ''alternatePhone'', ''faxNumber'', ''extension'']"
    by (simp_all add: wf_contact_document_def attrs_def)
  from wf_entries_iter[OF obj we] obtain email_list where
      e1: "py_get attrs ''contact-emails'' (JArr []) = Inr email_list"
      and e2: "py_iter email_list = Inr (entries_of attrs ''contact-emails'')"
      and e3: "list_all wf_entry (entries_of attrs ''contact-emails'')"
    by blast
  from wf_entries_iter[OF obj wp] obtain phone_list where
      p1: "py_get attrs ''contact-phones'' (JArr []) = Inr phone_list"
      and p2: "py_iter phone_list = Inr (entries_of attrs ''contact-phones'')"
      and p3: "list_all wf_entry (entries_of attrs ''contact-phones'')"
    by blast
  note e4 = entries_loop[OF e3, of py "{}"]
  note p4 = entries_loop[OF p3, of py "{}"]
  from wflat have wmail: "list_all (\<lambda>k. text_or_none (field_of attrs k))
                            [''emailAddress'', ''emailAddress2'', ''emailAddress3'']"
      and wphone: "list_all (\<lambda>k. text_or_none (field_of attrs k))
                     [''phone'', ''mobilePhone'', ''alternatePhone'', ''faxNumber'',
                      ''extension'']"
    by simp_all
  note f1 = email_fields_loop[OF obj wmail, of py]
  define phones1 where "phones1 = {} \<union> set (map (str_strip py) (filter (\<lambda>v. v \<noteq> [])
      (map (\<lambda>e. text_of (field_of e ''value'')) (entries_of attrs ''contact-phones''))))"
  from phone_fields_loop[OF obj wphone, of py phones1] obtain phones2 where
    f2: "add_phone_fields py attrs
           [''phone'', ''mobilePhone'', ''alternatePhone'', ''faxNumber'', ''extension'']
           phones1 = Inr phones2"
    by blast
  have "\<exists>included. py_get d ''included'' (JArr []) = Inr included
                   \<and> py_iter included = Inr (included_of d)"
    and items: "list_all wf_method_item (included_of d)"
    using wf
    by (auto simp: d wf_contact_document_def included_of_def split: option.splits json.splits)
  then obtain included where i1: "py_get d ''included'' (JArr []) = Inr included"
      and i2: "py_iter included = Inr (included_of d)"
    by blast
  define emails2 where "emails2 = ({} \<union> set (map (str_strip py) (filter (\<lambda>v. v \<noteq> [])
        (map (\<lambda>e. text_of (field_of e ''value'')) (entries_of attrs ''contact-emails'')))))
      \<union> set (map (str_strip py) (filter (\<lambda>v. v \<noteq> [])
        (map (\<lambda>k. text_of (field_of attrs k))
           [''emailAddress'', ''emailAddress2'', ''emailAddress3''])))"
  from methods_loop[OF items, of py emails2 phones2] obtain phones where
    m: "add_contact_methods py (included_of d) emails2 phones2
          = Inr (emails2 \<union> set (map (str_strip py) (filter (\<lambda>v. v \<noteq> [])
              (map (\<lambda>item. text_of (item_attr item ''value''))
                 (filter (email_method py) (included_of d))))), phones)"
    by blast
  have "extract_emails_and_phones py d
          = Inr (emails2 \<union> set (map (str_strip py) (filter (\<lambda>v. v \<noteq> [])
              (map (\<lambda>item. text_of (item_attr item ''value''))
                 (filter (email_method py) (included_of d))))), phones)"
    unfolding extract_emails_and_phones_def emails2_def
    by (simp only: g1 g2 e1 e2 e4 p1 p2 p4 f1 f2[unfolded phones1_def] i1 i2
          m[unfolded emails2_def] bind_err_def sum.case)
  moreover have "emails2 \<union> set (map (str_strip py) (filter (\<lambda>v. v \<noteq> [])
              (map (\<lambda>item. text_of (item_attr item ''value''))
                 (filter (email_method py) (included_of d))))) = spec_emails py d"
    by (simp add: emails2_def spec_emails_def spec_email_values_def attrs_def Un_assoc)
  ultimately show ?thesis by auto
qed

text \<open>
  Claim C6. For every well-formed contact document the extractor returns, as its
  emails, the set \<open>spec_emails\<close>: every non-empty email value of the three sources (the
  "contact-emails" list, the three flat fields, the included contact methods labelled
  as email), trimmed and otherwise as it is. Values are merged exactly when their
  trimmed strings are equal, letter case included. The duplicate check of
  \<^verbatim>\<open>create_contact_in_autotask\<close> looks up the trimmed, lower-cased email of the
  candidate: when the candidate's trimmed email differs only in letter case from an
  entry \<open>c\<close> of the cache (the cache holds lower-cased emails: lower-casing \<open>c\<close> gives
  \<open>c\<close>), the candidate is not created, the function returns false, the cache is
  unchanged and no request is sent. Both hold for every pair of string methods.
\<close>

theorem email_dedup_case_sensitivity:
  assumes "wf_contact_document d"
      and "c \<in> existing_emails_cache"
      and "str_lower py c = c"
      and "str_lower py (str_strip py (email contact_data)) = str_lower py c"
  shows "(\<exists>phones. extract_emails_and_phones py d = Inr (spec_emails py d, phones))
       \<and> create_contact_in_autotask py tr company_id contact_data existing_emails_cache trace
           = (False, existing_emails_cache, trace)"
proof -
  from assms(3,4) have key: "str_lower py (str_strip py (email contact_data)) = c"
    by simp
  have "create_contact_in_autotask py tr company_id contact_data existing_emails_cache trace
           = (False, existing_emails_cache, trace)"
    using assms(2) by (simp add: create_contact_in_autotask_def Let_def key)
  with extract_wf[OF assms(1), of py] show ?thesis by blast
qed

theorem email_dedup_case_sensitivity_witness:
  "extract_emails_and_phones ascii_methods example_contact_document
     = Inr ({''Jane@X.com'', ''jane@x.com''}, {''555 0100''})
   \<and> create_contact_in_autotask ascii_methods
        (\<lambda>trace method u body. Got \<lparr>status_code = 200, json_body = None\<rparr>)
        (JStr ''500'')
        \<lparr>firstName = JStr ''Jane'', lastName = JStr ''Doe'', email = ''Jane@X.com'', phone = []\<rparr>
        {''jane@x.com''} []
     = (False, {''jane@x.com''}, [])"
  using email_dedup_case_sensitivity [of example_contact_document "''jane@x.com''"
      "{''jane@x.com''}" ascii_methods
      "\<lparr>firstName = JStr ''Jane'', lastName = JStr ''Doe'', email = ''Jane@X.com'', phone = []\<rparr>"
      "\<lambda>trace method u body. Got \<lparr>status_code = 200, json_body = None\<rparr>"
      "JStr ''500''" "[]"]
  by (simp add: example_contact_document_def example_license_tag_def
        wf_contact_document_def wf_entries_def wf_entry_def wf_method_item_def wf_item_def
        is_method_def item_type_def item_attr_def attributes_of_def field_of_def
        text_or_none_def text_of_def entries_of_def included_of_def email_method_def
        spec_emails_def spec_email_values_def
        extract_emails_and_phones_def bind_err_def create_contact_in_autotask_def Let_def
        ascii_methods_def ascii_lower_def ascii_lower_char_def ascii_strip_def
        ascii_space_def insert_commute)

end
